theory Spec2Isabelle
  imports Main "HOL-Library.Multiset"
begin

section \<open>Data model of the UNO server (src/main.py)\<close>

text \<open>
  A card is the dictionary \<^verbatim>\<open>{"color": ..., "value": ..., "id": ...}\<close> built by
  \<^verbatim>\<open>create_deck\<close>; all three entries are Python strings.
\<close>

record card =
  color :: string
  card_value :: string
  card_id :: string

text \<open>
  A player is the dictionary appended by \<^verbatim>\<open>handle_create_game\<close> and
  \<^verbatim>\<open>handle_join_game\<close>.
\<close>

record player =
  player_id :: string
  name :: string
  isHost :: bool
  hand :: "card list"
  calledUno :: bool

text \<open>
  The dictionary stored under \<^verbatim>\<open>game["gameState"]\<close>. Its \<^verbatim>\<open>"players"\<close> entry is the
  very list object stored under \<^verbatim>\<open>game["players"]\<close> (line 126), so the roster is kept
  once, in the enclosing \<open>game\<close> record, and every handler reads and writes it there.
  \<^verbatim>\<open>currentColor\<close> is optional because a wild card sets it to
  \<^verbatim>\<open>data.get("chosenColor")\<close>, which is \<^verbatim>\<open>None\<close> when the client sent no colour.
  The top of both piles is the end of the list (\<^verbatim>\<open>pop()\<close> and \<^verbatim>\<open>append\<close>).
\<close>

record game_state =
  deck :: "card list"
  discardPile :: "card list"
  currentColor :: "string option"
  currentValue :: string
  currentPlayerIndex :: int
  direction :: int
  hasDrawn :: bool
  winner :: "string option"

record game =
  players :: "player list"
  started :: bool
  gameState :: "game_state option"

text \<open>The global dictionary \<^verbatim>\<open>games\<close>, from game code to game.\<close>

type_synonym registry = "string \<Rightarrow> game option"

datatype py_error = IndexError | TypeError | KeyError

text \<open>The messages a handler passes to \<^verbatim>\<open>broadcast\<close>.\<close>

datatype event = game_started | game_update | game_over string

text \<open>
  How a handler ends: it returns without a broadcast, it returns after broadcasting an
  event, or an exception leaves it. The registry a handler returns beside its outcome
  holds every mutation done before that point, also when an exception was raised.
\<close>

datatype outcome = Returned | Broadcast event | Raised py_error

section \<open>Helpers\<close>

definition COLORS :: "string list" where
  "COLORS = [''red'', ''blue'', ''green'', ''yellow'']"

definition VALUES :: "string list" where
  "VALUES = [''0'', ''1'', ''2'', ''3'', ''4''] @ [''5'', ''6'', ''7'', ''8'', ''9''] @
            [''skip'', ''reverse'', ''draw2'']"

text \<open>
  The deck of \<^verbatim>\<open>create_deck\<close> as the two loops build it, before
  \<^verbatim>\<open>random.shuffle\<close>. The last list is \<^verbatim>\<open>str(i)\<close> for \<^verbatim>\<open>i in range(4)\<close>.
\<close>

definition ordered_deck :: "card list" where
  "ordered_deck =
     concat (map (\<lambda>c. concat (map (\<lambda>v.
         \<lparr>color = c, card_value = v, card_id = c @ ''-'' @ v @ ''-1''\<rparr> #
         (if v \<noteq> ''0'' then [\<lparr>color = c, card_value = v, card_id = c @ ''-'' @ v @ ''-2''\<rparr>]
          else [])) VALUES)) COLORS) @
     concat (map (\<lambda>i.
         [\<lparr>color = ''wild'', card_value = ''wild'', card_id = ''wild-'' @ i\<rparr>,
          \<lparr>color = ''wild'', card_value = ''wild4'', card_id = ''wild4-'' @ i\<rparr>])
       [''0'', ''1'', ''2'', ''3''])"

text \<open>
  \<^verbatim>\<open>random.shuffle\<close> is a parameter of the model: the function that the call applies
  to the list. What is known of it is that it permutes.
\<close>

definition is_shuffle :: "(card list \<Rightarrow> card list) \<Rightarrow> bool" where
  "is_shuffle shuffle = (\<forall>xs. mset (shuffle xs) = mset xs)"

definition create_deck :: "(card list \<Rightarrow> card list) \<Rightarrow> card list" where
  "create_deck shuffle = shuffle ordered_deck"

text \<open>
  \<^verbatim>\<open>xs[i]\<close> for a Python integer: a negative index counts from the end, and an index
  out of range raises IndexError (\<open>None\<close>). The result is the position read.
\<close>

definition py_index :: "'a list \<Rightarrow> int \<Rightarrow> nat option" where
  "py_index xs i =
     (if 0 \<le> i \<and> i < int (length xs) then Some (nat i)
      else if i < 0 \<and> - int (length xs) \<le> i then Some (nat (int (length xs) + i))
      else None)"

text \<open>
  \<^verbatim>\<open>get_next_player_index\<close>, on the roster and the state. Python's \<^verbatim>\<open>%\<close> with a
  positive divisor is the floor modulus, as \<open>mod\<close> on \<open>int\<close>. Every call site has
  indexed the roster before, so the roster is not empty there.
\<close>

definition get_next_player_index :: "player list \<Rightarrow> game_state \<Rightarrow> int" where
  "get_next_player_index ps state =
     (currentPlayerIndex state + direction state) mod int (length ps)"

text \<open>
  One round of \<^verbatim>\<open>if state["deck"]: hand.append(state["deck"].pop())\<close> on the pair of
  the deck and the hand, and the loop \<^verbatim>\<open>for _ in range(2)\<close> around it.
\<close>

definition draw_if_any :: "card list \<times> card list \<Rightarrow> card list \<times> card list" where
  "draw_if_any dh =
     (case dh of (d, h) \<Rightarrow> if d \<noteq> [] then (butlast d, h @ [last d]) else (d, h))"

definition draw_two :: "card list \<times> card list \<Rightarrow> card list \<times> card list" where
  "draw_two dh = draw_if_any (draw_if_any dh)"

section \<open>handle\_start\_game\<close>

text \<open>
  \<^verbatim>\<open>[deck.pop() for _ in range(n)]\<close>: the cards popped, in the order popped, and the
  deck left; \<open>None\<close> when a pop finds the deck empty (IndexError).
\<close>

fun pop_n :: "nat \<Rightarrow> card list \<Rightarrow> (card list \<times> card list) option" where
  "pop_n 0 d = Some ([], d)"
| "pop_n (Suc n) d =
     (if d = [] then None
      else (case pop_n n (butlast d) of
              None \<Rightarrow> None
            | Some (h, d') \<Rightarrow> Some (last d # h, d')))"

text \<open>
  The dealing loop (lines 116 to 118). The players already dealt to keep their new hands
  when a later comprehension raises; the player it raised for keeps the old hand.
\<close>

fun deal :: "player list \<Rightarrow> card list \<Rightarrow> player list \<times> card list option" where
  "deal [] d = ([], Some d)"
| "deal (p # ps) d =
     (case pop_n 7 d of
        None \<Rightarrow> (p # ps, None)
      | Some (h, d') \<Rightarrow>
          (case deal ps d' of (ps', r) \<Rightarrow> (p\<lparr>hand := h, calledUno := False\<rparr> # ps', r)))"

text \<open>
  The loop \<^verbatim>\<open>while start["color"] == "wild": deck.insert(0, start); start = deck.pop()\<close>.
  It need not end: \<open>None\<close> is the loop that runs forever.
\<close>

partial_function (option) seed_loop :: "card \<Rightarrow> card list \<Rightarrow> (card \<times> card list) option" where
  "seed_loop start d =
     (if color start = ''wild''
      then seed_loop (last (start # d)) (butlast (start # d))
      else Some (start, d))"

declare seed_loop.simps [code]

text \<open>
  \<^verbatim>\<open>handle_start_game\<close>; \<open>None\<close> when the seed loop never ends. The outer
  \<^verbatim>\<open>if not game\<close> is the missing key (a game dictionary is never empty).
\<close>

definition handle_start_game ::
  "(card list \<Rightarrow> card list) \<Rightarrow> registry \<Rightarrow> string \<Rightarrow> string \<Rightarrow> (outcome \<times> registry) option" where
  "handle_start_game shuffle games code pid =
     (case games code of
        None \<Rightarrow> Some (Returned, games)
      | Some game \<Rightarrow>
          if \<not> list_ex (\<lambda>p. player_id p = pid \<and> isHost p) (players game)
          then Some (Returned, games)
          else
            (case deal (players game) (create_deck shuffle) of
               (ps, None) \<Rightarrow> Some (Raised IndexError, games(code \<mapsto> game\<lparr>players := ps\<rparr>))
             | (ps, Some d) \<Rightarrow>
                 if d = [] then Some (Raised IndexError, games(code \<mapsto> game\<lparr>players := ps\<rparr>))
                 else
                   (case seed_loop (last d) (butlast d) of
                      None \<Rightarrow> None
                    | Some (start, d') \<Rightarrow>
                        Some (Broadcast game_started,
                          games(code \<mapsto>
                            \<lparr>players = ps, started = True,
                             gameState = Some
                               \<lparr>deck = d', discardPile = [start],
                                currentColor = Some (color start),
                                currentValue = card_value start,
                                currentPlayerIndex = 0, direction = 1,
                                hasDrawn = False, winner = None\<rparr>\<rparr>)))))"

section \<open>handle\_play\_card\<close>

text \<open>
  Lines 168 to 173: the penalty draw and the reset of the flag, on the roster and the
  state after the card has left the hand of the player at position \<open>i\<close>.
\<close>

definition penalty :: "nat \<Rightarrow> player list \<times> game_state \<Rightarrow> player list \<times> game_state" where
  "penalty i pst =
     (case pst of (ps, state) \<Rightarrow>
        let player = ps ! i;
            dh = (if length (hand player) = 1 \<and> \<not> calledUno player
                  then draw_two (deck state, hand player)
                  else (deck state, hand player))
        in (ps[i := player\<lparr>hand := snd dh, calledUno := False\<rparr>], state\<lparr>deck := fst dh\<rparr>))"

text \<open>Lines 175 to 183: the effect of the card played.\<close>

definition card_effect :: "card \<Rightarrow> player list \<times> game_state \<Rightarrow> player list \<times> game_state" where
  "card_effect c pst =
     (case pst of (ps, state) \<Rightarrow>
        if card_value c = ''reverse'' then (ps, state\<lparr>direction := direction state * (- 1)\<rparr>)
        else if card_value c = ''skip''
          then (ps, state\<lparr>currentPlayerIndex := get_next_player_index ps state\<rparr>)
        else if card_value c = ''draw2''
          then (let j = nat (get_next_player_index ps state);
                    nxt = ps ! j;
                    dh = draw_two (deck state, hand nxt)
                in (ps[j := nxt\<lparr>hand := snd dh\<rparr>], state\<lparr>deck := fst dh\<rparr>))
        else (ps, state))"

text \<open>Lines 185 and 186.\<close>

definition advance_turn :: "player list \<times> game_state \<Rightarrow> player list \<times> game_state" where
  "advance_turn pst =
     (case pst of (ps, state) \<Rightarrow>
        (ps, state\<lparr>currentPlayerIndex := get_next_player_index ps state, hasDrawn := False\<rparr>))"

text \<open>
  Lines 158 to 188: the play of \<open>c\<close>, found in the hand of the player at position \<open>i\<close>.
\<close>

definition resolve_play ::
  "nat \<Rightarrow> card \<Rightarrow> string option \<Rightarrow> player list \<times> game_state \<Rightarrow> outcome \<times> player list \<times> game_state" where
  "resolve_play i c chosen pst =
     (case pst of (ps, state) \<Rightarrow>
        let player = ps ! i;
            ps1 = ps[i := player\<lparr>hand := remove1 c (hand player)\<rparr>];
            state1 = state\<lparr>discardPile := discardPile state @ [c],
                           currentColor := (if color c = ''wild'' then chosen else Some (color c)),
                           currentValue := card_value c\<rparr>
        in if length (hand (ps1 ! i)) = 0
           then (Broadcast (game_over (name player)), ps1, state1\<lparr>winner := Some (name player)\<rparr>)
           else (Broadcast game_update, advance_turn (card_effect c (penalty i (ps1, state1)))))"

definition handle_play_card ::
  "registry \<Rightarrow> string \<Rightarrow> string \<Rightarrow> string \<Rightarrow> string option \<Rightarrow> outcome \<times> registry" where
  "handle_play_card games code pid cid chosen =
     (case games code of
        None \<Rightarrow> (Returned, games)
      | Some game \<Rightarrow>
          (case gameState game of
             None \<Rightarrow> (Raised TypeError, games)
           | Some state \<Rightarrow>
               (case py_index (players game) (currentPlayerIndex state) of
                  None \<Rightarrow> (Raised IndexError, games)
                | Some i \<Rightarrow>
                    if player_id (players game ! i) \<noteq> pid then (Returned, games)
                    else
                      (case find (\<lambda>c. card_id c = cid) (hand (players game ! i)) of
                         None \<Rightarrow> (Returned, games)
                       | Some c \<Rightarrow>
                           (case resolve_play i c chosen (players game, state) of
                              (out, ps, state') \<Rightarrow>
                                (out, games(code \<mapsto>
                                   game\<lparr>players := ps, gameState := Some state'\<rparr>)))))))"

section \<open>handle\_draw\<close>

text \<open>
  Lines 202 to 206. \<open>None\<close> is the IndexError of \<^verbatim>\<open>discardPile.pop()\<close> on an empty
  discard pile, raised before anything was written.
\<close>

definition recycle :: "(card list \<Rightarrow> card list) \<Rightarrow> game_state \<Rightarrow> game_state option" where
  "recycle shuffle state =
     (if deck state = []
      then (if discardPile state = [] then None
            else Some (state\<lparr>deck := shuffle (butlast (discardPile state)),
                             discardPile := [last (discardPile state)]\<rparr>))
      else Some state)"

definition handle_draw ::
  "(card list \<Rightarrow> card list) \<Rightarrow> registry \<Rightarrow> string \<Rightarrow> string \<Rightarrow> outcome \<times> registry" where
  "handle_draw shuffle games code pid =
     (case games code of
        None \<Rightarrow> (Returned, games)
      | Some game \<Rightarrow>
          (case gameState game of
             None \<Rightarrow> (Raised TypeError, games)
           | Some state \<Rightarrow>
               (case py_index (players game) (currentPlayerIndex state) of
                  None \<Rightarrow> (Raised IndexError, games)
                | Some i \<Rightarrow>
                    if player_id (players game ! i) \<noteq> pid then (Returned, games)
                    else
                      (case recycle shuffle state of
                         None \<Rightarrow> (Raised IndexError, games)
                       | Some state1 \<Rightarrow>
                           if deck state1 = []
                           then (Raised IndexError,
                                 games(code \<mapsto> game\<lparr>gameState := Some state1\<rparr>))
                           else (Broadcast game_update,
                                 games(code \<mapsto> game
                                   \<lparr>players := (players game)
                                      [i := (players game ! i)
                                         \<lparr>hand := hand (players game ! i) @ [last (deck state1)]\<rparr>],
                                    gameState := Some (state1
                                      \<lparr>deck := butlast (deck state1), hasDrawn := True\<rparr>)\<rparr>))))))"

section \<open>handle\_call\_uno\<close>

definition handle_call_uno :: "registry \<Rightarrow> string \<Rightarrow> string \<Rightarrow> outcome \<times> registry" where
  "handle_call_uno games code pid =
     (case games code of
        None \<Rightarrow> (Raised KeyError, games)
      | Some game \<Rightarrow>
          (case gameState game of
             None \<Rightarrow> (Raised TypeError, games)
           | Some state \<Rightarrow>
               (Broadcast game_update,
                games(code \<mapsto> game
                  \<lparr>players := map (\<lambda>p. if player_id p = pid \<and> length (hand p) = 2
                                       then p\<lparr>calledUno := True\<rparr> else p) (players game)\<rparr>))))"

section \<open>Sequences of in-game messages\<close>

text \<open>
  The three in-game messages of \<^verbatim>\<open>handler\<close>, each with the fields its handler reads:
  the game code, the player id, and for a play the card id and the chosen colour.
\<close>

datatype message =
  play_card string string string "string option"
| draw_card string string
| call_uno string string

fun dispatch :: "(card list \<Rightarrow> card list) \<Rightarrow> registry \<Rightarrow> message \<Rightarrow> outcome \<times> registry" where
  "dispatch shuffle games (play_card code pid cid chosen) = handle_play_card games code pid cid chosen"
| "dispatch shuffle games (draw_card code pid) = handle_draw shuffle games code pid"
| "dispatch shuffle games (call_uno code pid) = handle_call_uno games code pid"

text \<open>
  A run of messages, each with the permutation its \<^verbatim>\<open>random.shuffle\<close> would apply.
  An exception ends the connection that sent the message, not the server: the registry
  stays as the handler left it and the next message is served.
\<close>

fun run :: "registry \<Rightarrow> ((card list \<Rightarrow> card list) \<times> message) list \<Rightarrow> registry" where
  "run games [] = games"
| "run games ((shuffle, m) # ms) = run (snd (dispatch shuffle games m)) ms"

section \<open>Counting cards\<close>

definition all_cards :: "game \<Rightarrow> card list" where
  "all_cards game =
     concat (map hand (players game)) @
     (case gameState game of None \<Rightarrow> [] | Some state \<Rightarrow> deck state @ discardPile state)"

definition card_total :: "game \<Rightarrow> nat" where
  "card_total game =
     sum_list (map (\<lambda>p. length (hand p)) (players game)) +
     (case gameState game of
        None \<Rightarrow> 0
      | Some state \<Rightarrow> length (deck state) + length (discardPile state))"

text \<open>
  The cards on the table as a multiset: all hands, the draw pile and the discard pile.
\<close>

definition table_cards :: "player list \<times> game_state \<Rightarrow> card multiset" where
  "table_cards pst = (case pst of (ps, state) \<Rightarrow>
      mset (concat (map hand ps)) + mset (deck state) + mset (discardPile state))"

text \<open>The multiset of all cards of the game stored under a code, if there is one.\<close>

definition cards_view :: "registry \<Rightarrow> string \<Rightarrow> card multiset option" where
  "cards_view games code = map_option (\<lambda>g. mset (all_cards g)) (games code)"

text \<open>
  Lines 158 to 173 in one step, with the two rounds of the penalty loop written as the
  two top cards of the draw pile: the roster and the state before the effect of the card.
\<close>

definition after_penalty ::
  "nat \<Rightarrow> card \<Rightarrow> string option \<Rightarrow> player list \<times> game_state \<Rightarrow> player list \<times> game_state" where
  "after_penalty i c chosen pst =
     (case pst of (ps, state) \<Rightarrow>
        let h1 = remove1 c (hand (ps ! i));
            pen = (length h1 = 1 \<and> \<not> calledUno (ps ! i))
        in (ps[i := (ps ! i)\<lparr>hand := h1 @ (if pen then take 2 (rev (deck state)) else []),
                              calledUno := False\<rparr>],
            state\<lparr>deck := (if pen then take (length (deck state) - 2) (deck state) else deck state),
                  discardPile := discardPile state @ [c],
                  currentColor := (if color c = ''wild'' then chosen else Some (color c)),
                  currentValue := card_value c\<rparr>))"

text \<open>
  The player with id \<open>pid\<close> is to move in the started game under \<open>code\<close>, the draw
  pile holds \<open>n\<close> cards and the discard pile one.
\<close>

definition can_draw :: "registry \<Rightarrow> string \<Rightarrow> string \<Rightarrow> nat \<Rightarrow> bool" where
  "can_draw games code pid n =
     (case games code of
        None \<Rightarrow> False
      | Some game \<Rightarrow>
          (case gameState game of
             None \<Rightarrow> False
           | Some state \<Rightarrow>
               (case py_index (players game) (currentPlayerIndex state) of
                  None \<Rightarrow> False
                | Some i \<Rightarrow>
                    player_id (players game ! i) = pid \<and>
                    length (deck state) = n \<and> length (discardPile state) = 1)))"

section \<open>The winner field\<close>

text \<open>
  A game with the \<open>winner\<close> entry of its state overwritten, and the registry with
  every winner erased: what a registry looks like to a reader who cannot see who has won.
\<close>

definition with_winner :: "string option \<Rightarrow> game \<Rightarrow> game" where
  "with_winner w game =
     game\<lparr>gameState := map_option (\<lambda>state. state\<lparr>winner := w\<rparr>) (gameState game)\<rparr>"

definition forget_winner :: "registry \<Rightarrow> registry" where
  "forget_winner games = (\<lambda>code. map_option (with_winner None) (games code))"

text \<open>The outcomes of a run of messages, in the order the messages were served.\<close>

fun run_outcomes :: "registry \<Rightarrow> ((card list \<Rightarrow> card list) \<times> message) list \<Rightarrow> outcome list" where
  "run_outcomes games [] = []"
| "run_outcomes games ((shuffle, m) # ms) =
     fst (dispatch shuffle games m) # run_outcomes (snd (dispatch shuffle games m)) ms"

section \<open>Example lobby\<close>

definition ex_host :: player where
  "ex_host = \<lparr>player_id = ''p1'', name = ''Ann'', isHost = True, hand = [], calledUno = False\<rparr>"

definition ex_lobby :: registry where
  "ex_lobby = [''ABCD'' \<mapsto> \<lparr>players = [ex_host], started = False, gameState = None\<rparr>]"

definition ex_started :: registry where
  "ex_started =
     (case handle_start_game id ex_lobby ''ABCD'' ''p1'' of
        Some (out, g) \<Rightarrow> g
      | None \<Rightarrow> Map.empty)"

definition ex_msgs :: "((card list \<Rightarrow> card list) \<times> message) list" where
  "ex_msgs =
     [(id, draw_card ''ABCD'' ''p1''),
      (rev, play_card ''ABCD'' ''p1'' ''wild-3'' (Some ''red'')),
      (id, call_uno ''ABCD'' ''p1''),
      (rev, draw_card ''ABCD'' ''p2'')]"

section \<open>Example table\<close>

text \<open>
  A table of four players in a started game, with the turn and the draw pile as
  parameters, and what can be seen of a game: the sizes of the hands and of the two
  piles, and whose turn it is.
\<close>

definition ex_card :: "string \<Rightarrow> string \<Rightarrow> card" where
  "ex_card c v = \<lparr>color = c, card_value = v, card_id = c @ ''-'' @ v @ ''-1''\<rparr>"

definition ex_players :: "player list" where
  "ex_players =
     [\<lparr>player_id = ''p1'', name = ''Ann'', isHost = True,
       hand = [ex_card ''red'' ''draw2'', ex_card ''blue'' ''5'', ex_card ''green'' ''7''],
       calledUno = False\<rparr>,
      \<lparr>player_id = ''p2'', name = ''Bob'', isHost = False,
       hand = [ex_card ''red'' ''3'', ex_card ''yellow'' ''skip''],
       calledUno = False\<rparr>,
      \<lparr>player_id = ''p3'', name = ''Cy'', isHost = False,
       hand = [ex_card ''green'' ''reverse''],
       calledUno = True\<rparr>,
      \<lparr>player_id = ''p4'', name = ''Dee'', isHost = False,
       hand = [ex_card ''blue'' ''7'', ex_card ''yellow'' ''9''],
       calledUno = True\<rparr>]"

definition ex_deck :: "card list" where
  "ex_deck = [ex_card ''yellow'' ''1'', ex_card ''yellow'' ''2'', ex_card ''red'' ''9'',
              ex_card ''green'' ''4'']"

definition ex_discard :: "card list" where
  "ex_discard = [ex_card ''blue'' ''2'', ex_card ''red'' ''2'', ex_card ''red'' ''1'']"

definition ex_state :: "int \<Rightarrow> card list \<Rightarrow> game_state" where
  "ex_state turn d =
     \<lparr>deck = d, discardPile = ex_discard, currentColor = Some ''red'', currentValue = ''1'',
      currentPlayerIndex = turn, direction = 1, hasDrawn = True, winner = None\<rparr>"

definition ex_game :: "int \<Rightarrow> card list \<Rightarrow> game" where
  "ex_game turn d = \<lparr>players = ex_players, started = True, gameState = Some (ex_state turn d)\<rparr>"

definition ex_table :: "int \<Rightarrow> card list \<Rightarrow> registry" where
  "ex_table turn d = [''ABCD'' \<mapsto> ex_game turn d]"

definition ex_won :: registry where
  "ex_won = snd (handle_play_card (ex_table 2 ex_deck) ''ABCD'' ''p3'' ''green-reverse-1'' None)"

definition table_view :: "registry \<Rightarrow> string \<Rightarrow> (nat list \<times> nat \<times> nat \<times> int) option" where
  "table_view games code =
     (case games code of
        None \<Rightarrow> None
      | Some game \<Rightarrow>
          (case gameState game of
             None \<Rightarrow> None
           | Some state \<Rightarrow>
               Some (map (\<lambda>p. length (hand p)) (players game),
                     length (deck state), length (discardPile state),
                     currentPlayerIndex state)))"

text \<open>
  Messages sent after Cy has won on the example table, and a started match of one player
  who holds a draw2 and one other card.
\<close>

definition ex_later :: "((card list \<Rightarrow> card list) \<times> message) list" where
  "ex_later =
     [(id, draw_card ''ABCD'' ''p3''),
      (id, call_uno ''ABCD'' ''p2''),
      (id, play_card ''ABCD'' ''p3'' ''green-4-1'' None)]"

definition ex_solo_state :: game_state where
  "ex_solo_state =
     \<lparr>deck = ex_deck, discardPile = ex_discard, currentColor = Some ''red'',
      currentValue = ''1'', currentPlayerIndex = 0, direction = 1, hasDrawn = False,
      winner = None\<rparr>"

definition ex_solo_game :: game where
  "ex_solo_game =
     \<lparr>players =
        [\<lparr>player_id = ''p1'', name = ''Ann'', isHost = True,
          hand = [ex_card ''red'' ''draw2'', ex_card ''blue'' ''5''],
          calledUno = False\<rparr>],
      started = True, gameState = Some ex_solo_state\<rparr>"

definition ex_solo :: registry where
  "ex_solo = [''SOLO'' \<mapsto> ex_solo_game]"

section \<open>Conservation of cards\<close>

lemma length_ordered_deck: "length ordered_deck = 108"
  by (simp add: ordered_deck_def COLORS_def VALUES_def)

lemma mset_butlast_last: "d \<noteq> [] \<Longrightarrow> mset (butlast d) + {#last d#} = mset d"
proof -
  assume "d \<noteq> []"
  then have "d = butlast d @ [last d]" by simp
  then have "mset d = mset (butlast d @ [last d])" by simp
  then show ?thesis by simp
qed

lemma mset_draw_if_any:
  "mset (fst (draw_if_any dh)) + mset (snd (draw_if_any dh)) = mset (fst dh) + mset (snd dh)"
proof (cases dh)
  case (Pair d h)
  show ?thesis
  proof (cases "d = []")
    case True
    with Pair show ?thesis by (simp add: draw_if_any_def)
  next
    case False
    from mset_butlast_last [OF False] have "mset d = add_mset (last d) (mset (butlast d))"
      by simp
    with Pair False show ?thesis by (simp add: draw_if_any_def)
  qed
qed

lemma mset_draw_two:
  "mset (fst (draw_two dh)) + mset (snd (draw_two dh)) = mset (fst dh) + mset (snd dh)"
  by (simp add: draw_two_def mset_draw_if_any)

lemma mset_hands_update:
  "i < length ps \<Longrightarrow>
   mset (concat (map hand (ps[i := p]))) + mset (hand (ps ! i)) =
   mset (concat (map hand ps)) + mset (hand p)"
proof (induction ps arbitrary: i)
  case Nil
  then show ?case by simp
next
  case (Cons q qs)
  show ?case
  proof (cases i)
    case 0
    then show ?thesis by simp
  next
    case (Suc k)
    with Cons.prems have "k < length qs" by simp
    from Cons.IH [OF this] Suc show ?thesis by (simp add: ac_simps)
  qed
qed

lemma mset_swap_cancel:
  fixes A :: "'a multiset"
  assumes "A' + H = A + S" and "F + S = Dk + H"
  shows "A' + F = A + Dk"
proof -
  have "(A' + F) + (H + S) = (A' + H) + (F + S)" by (simp add: ac_simps)
  also have "\<dots> = (A + S) + (Dk + H)" by (simp only: assms)
  also have "\<dots> = (A + Dk) + (H + S)" by (simp add: ac_simps)
  finally show ?thesis by simp
qed

lemma table_cards_penalty:
  assumes "i < length ps"
  shows "table_cards (penalty i (ps, state)) = table_cards (ps, state)"
proof -
  define dh where "dh = (if length (hand (ps ! i)) = 1 \<and> \<not> calledUno (ps ! i)
                  then draw_two (deck state, hand (ps ! i))
                  else (deck state, hand (ps ! i)))"
  have dh: "mset (fst dh) + mset (snd dh) = mset (deck state) + mset (hand (ps ! i))"
    unfolding dh_def using mset_draw_two [of "(deck state, hand (ps ! i))"] by simp
  have pen: "penalty i (ps, state) =
      (ps[i := (ps ! i)\<lparr>hand := snd dh, calledUno := False\<rparr>], state\<lparr>deck := fst dh\<rparr>)"
    by (simp add: penalty_def dh_def Let_def)
  from mset_hands_update [OF assms, of "(ps ! i)\<lparr>hand := snd dh, calledUno := False\<rparr>"]
  have "mset (concat (map hand (ps[i := (ps ! i)\<lparr>hand := snd dh, calledUno := False\<rparr>]))) + mset (hand (ps ! i))
      = mset (concat (map hand ps)) + mset (snd dh)" by simp
  from mset_swap_cancel [OF this dh] show ?thesis
    unfolding pen table_cards_def by simp
qed

lemma next_index_in_range:
  "ps \<noteq> [] \<Longrightarrow> nat (get_next_player_index ps state) < length ps"
  by (simp add: get_next_player_index_def nat_less_iff)

lemma next_index_nonneg:
  "ps \<noteq> [] \<Longrightarrow> 0 \<le> get_next_player_index ps state \<and> get_next_player_index ps state < int (length ps)"
  by (simp add: get_next_player_index_def)

lemma table_cards_card_effect:
  assumes "ps \<noteq> []"
  shows "table_cards (card_effect c (ps, state)) = table_cards (ps, state)"
proof (cases "card_value c = ''draw2''")
  case False
  then show ?thesis by (simp add: card_effect_def table_cards_def)
next
  case True
  define j where "j = nat (get_next_player_index ps state)"
  define dh where "dh = draw_two (deck state, hand (ps ! j))"
  have j: "j < length ps" unfolding j_def using assms by (rule next_index_in_range)
  have eff: "card_effect c (ps, state) = (ps[j := (ps ! j)\<lparr>hand := snd dh\<rparr>], state\<lparr>deck := fst dh\<rparr>)"
    using True by (simp add: card_effect_def Let_def j_def dh_def)
  have dh: "mset (fst dh) + mset (snd dh) = mset (deck state) + mset (hand (ps ! j))"
    unfolding dh_def using mset_draw_two [of "(deck state, hand (ps ! j))"] by simp
  from mset_hands_update [OF j, of "(ps ! j)\<lparr>hand := snd dh\<rparr>"]
  have "mset (concat (map hand (ps[j := (ps ! j)\<lparr>hand := snd dh\<rparr>]))) + mset (hand (ps ! j))
      = mset (concat (map hand ps)) + mset (snd dh)" by simp
  from mset_swap_cancel [OF this dh] show ?thesis
    unfolding eff table_cards_def by simp
qed

lemma table_cards_advance_turn:
  "table_cards (advance_turn pst) = table_cards pst"
  by (cases pst) (simp add: advance_turn_def table_cards_def)

lemma length_penalty: "length (fst (penalty i pst)) = length (fst pst)"
  by (cases pst) (simp add: penalty_def Let_def)

lemma table_cards_resolve_play:
  assumes i: "i < length ps" and c: "c \<in> set (hand (ps ! i))"
  shows "table_cards (snd (resolve_play i c chosen (ps, state))) = table_cards (ps, state)"
proof -
  define ps1 where "ps1 = ps[i := (ps ! i)\<lparr>hand := remove1 c (hand (ps ! i))\<rparr>]"
  define state1 where "state1 = state\<lparr>discardPile := discardPile state @ [c],
                           currentColor := (if color c = ''wild'' then chosen else Some (color c)),
                           currentValue := card_value c\<rparr>"
  have h: "mset (remove1 c (hand (ps ! i))) + {#c#} = mset (hand (ps ! i))"
    using c by simp
  from mset_hands_update [OF i, of "(ps ! i)\<lparr>hand := remove1 c (hand (ps ! i))\<rparr>"]
  have "mset (concat (map hand ps1)) + mset (hand (ps ! i)) =
        mset (concat (map hand ps)) + mset (remove1 c (hand (ps ! i)))"
    by (simp add: ps1_def)
  moreover from h have "{#c#} + mset (remove1 c (hand (ps ! i))) = {#} + mset (hand (ps ! i))"
    by (simp only: add.commute [of "{#c#}"] add.left_neutral)
  ultimately have "mset (concat (map hand ps1)) + {#c#} = mset (concat (map hand ps)) + {#}"
    by (rule mset_swap_cancel)
  then have base: "table_cards (ps1, state1) = table_cards (ps, state)"
    by (simp add: table_cards_def state1_def)
  have win: "table_cards (ps1, state1\<lparr>winner := w\<rparr>) = table_cards (ps1, state1)" for w
    by (simp add: table_cards_def)
  have i1: "i < length ps1" and ne: "ps1 \<noteq> []" using i by (auto simp: ps1_def)
  obtain ps2 state2 where pen: "penalty i (ps1, state1) = (ps2, state2)" by (cases "penalty i (ps1, state1)")
  have "length ps2 = length ps1" using length_penalty [of i "(ps1, state1)"] pen by simp
  with ne have ne2: "ps2 \<noteq> []" by auto
  have "table_cards (advance_turn (card_effect c (penalty i (ps1, state1)))) = table_cards (ps1, state1)"
    using table_cards_penalty [OF i1, of state1] table_cards_card_effect [OF ne2, of c state2] pen
    by (simp add: table_cards_advance_turn)
  with base win show ?thesis
    by (simp add: resolve_play_def Let_def ps1_def [symmetric] state1_def [symmetric])
qed

lemma mset_all_cards:
  "gameState game = Some state \<Longrightarrow> mset (all_cards game) = table_cards (players game, state)"
  by (simp add: all_cards_def table_cards_def)

lemma card_total_length: "card_total game = length (all_cards game)"
  by (simp add: card_total_def all_cards_def length_concat comp_def split: option.split)

lemma py_index_Some: "py_index xs k = Some i \<Longrightarrow> i < length xs"
  by (auto simp: py_index_def split: if_splits)

lemma find_Some_set: "find P xs = Some x \<Longrightarrow> x \<in> set xs"
  by (auto simp: find_Some_iff)

lemma cards_view_play_card:
  "cards_view (snd (handle_play_card games code pid cid chosen)) code' = cards_view games code'"
proof (cases "games code")
  case None
  then show ?thesis by (simp add: handle_play_card_def)
next
  case (Some game)
  show ?thesis
  proof (cases "gameState game")
    case None
    with Some show ?thesis by (simp add: handle_play_card_def)
  next
    case st: (Some state)
    show ?thesis
    proof (cases "py_index (players game) (currentPlayerIndex state)")
      case None
      with Some st show ?thesis by (simp add: handle_play_card_def)
    next
      case ix: (Some i)
      then have i: "i < length (players game)" by (rule py_index_Some)
      show ?thesis
      proof (cases "find (\<lambda>c. card_id c = cid) (hand (players game ! i))")
        case None
        with Some st ix show ?thesis by (simp add: handle_play_card_def)
      next
        case fd: (Some c)
        then have c: "c \<in> set (hand (players game ! i))" by (rule find_Some_set)
        obtain out ps state' where r: "resolve_play i c chosen (players game, state) = (out, ps, state')"
          by (cases "resolve_play i c chosen (players game, state)")
        from table_cards_resolve_play [OF i c, of chosen state] r
        have "table_cards (ps, state') = table_cards (players game, state)" by simp
        then have "mset (all_cards (game\<lparr>players := ps, gameState := Some state'\<rparr>)) = mset (all_cards game)"
          using st by (simp add: mset_all_cards)
        with Some st ix fd r show ?thesis
          by (simp add: handle_play_card_def cards_view_def)
      qed
    qed
  qed
qed

lemma table_cards_recycle:
  assumes "is_shuffle shuffle" and "recycle shuffle state = Some state1"
  shows "table_cards (ps, state1) = table_cards (ps, state)"
proof (cases "deck state = []")
  case False
  with assms show ?thesis by (simp add: recycle_def)
next
  case True
  with assms have ne: "discardPile state \<noteq> []"
    and s1: "state1 = state\<lparr>deck := shuffle (butlast (discardPile state)),
                             discardPile := [last (discardPile state)]\<rparr>"
    by (auto simp: recycle_def split: if_splits)
  have "mset (shuffle (butlast (discardPile state))) = mset (butlast (discardPile state))"
    using assms(1) by (simp add: is_shuffle_def)
  with mset_butlast_last [OF ne] True show ?thesis
    by (simp add: s1 table_cards_def)
qed

lemma cards_view_draw:
  assumes sh: "is_shuffle shuffle"
  shows "cards_view (snd (handle_draw shuffle games code pid)) code' = cards_view games code'"
proof (cases "games code")
  case None
  then show ?thesis by (simp add: handle_draw_def)
next
  case (Some game)
  show ?thesis
  proof (cases "gameState game")
    case None
    with Some show ?thesis by (simp add: handle_draw_def)
  next
    case st: (Some state)
    show ?thesis
    proof (cases "py_index (players game) (currentPlayerIndex state)")
      case None
      with Some st show ?thesis by (simp add: handle_draw_def)
    next
      case ix: (Some i)
      then have i: "i < length (players game)" by (rule py_index_Some)
      show ?thesis
      proof (cases "recycle shuffle state")
        case None
        with Some st ix show ?thesis by (simp add: handle_draw_def)
      next
        case rc: (Some state1)
        have t1: "table_cards (players game, state1) = table_cards (players game, state)"
          using sh rc by (rule table_cards_recycle)
        show ?thesis
        proof (cases "deck state1 = []")
          case True
          have "mset (all_cards (game\<lparr>gameState := Some state1\<rparr>)) = mset (all_cards game)"
            using t1 st by (simp add: mset_all_cards)
          with Some st ix rc True show ?thesis
            by (simp add: handle_draw_def cards_view_def)
        next
          case False
          define p where "p = players game ! i"
          define ps where "ps = (players game)[i := p\<lparr>hand := hand p @ [last (deck state1)]\<rparr>]"
          define state2 where "state2 = state1\<lparr>deck := butlast (deck state1), hasDrawn := True\<rparr>"
          from mset_hands_update [OF i, of "p\<lparr>hand := hand p @ [last (deck state1)]\<rparr>"]
          have "mset (concat (map hand ps)) + mset (hand p) =
                mset (concat (map hand (players game))) + (mset (hand p) + {#last (deck state1)#})"
            by (simp add: ps_def p_def)
          moreover have "mset (butlast (deck state1)) + (mset (hand p) + {#last (deck state1)#}) =
                mset (deck state1) + mset (hand p)"
            using mset_butlast_last [OF False] by (simp add: ac_simps)
          ultimately have "mset (concat (map hand ps)) + mset (butlast (deck state1)) =
                mset (concat (map hand (players game))) + mset (deck state1)"
            by (rule mset_swap_cancel)
          then have "table_cards (ps, state2) = table_cards (players game, state1)"
            by (simp add: table_cards_def state2_def)
          with t1 have "mset (all_cards (game\<lparr>players := ps, gameState := Some state2\<rparr>)) = mset (all_cards game)"
            using st by (simp add: mset_all_cards)
          with Some st ix rc False show ?thesis
            by (simp add: handle_draw_def cards_view_def ps_def p_def state2_def)
        qed
      qed
    qed
  qed
qed

lemma cards_view_call_uno:
  "cards_view (snd (handle_call_uno games code pid)) code' = cards_view games code'"
proof -
  have eq: "concat (map hand (map (\<lambda>p. if player_id p = pid \<and> length (hand p) = 2
                                       then p\<lparr>calledUno := True\<rparr> else p) ps)) = concat (map hand ps)" for ps
    by (induction ps) simp_all
  show ?thesis
    by (simp add: handle_call_uno_def cards_view_def all_cards_def eq del: map_map split: option.split)
qed

lemma cards_view_dispatch:
  "is_shuffle shuffle \<Longrightarrow> cards_view (snd (dispatch shuffle games m)) code' = cards_view games code'"
  by (cases m) (simp_all add: cards_view_play_card cards_view_draw cards_view_call_uno)

lemma cards_view_run:
  "list_all (\<lambda>sm. is_shuffle (fst sm)) ms \<Longrightarrow> cards_view (run games ms) code' = cards_view games code'"
proof (induction ms arbitrary: games)
  case Nil
  then show ?case by simp
next
  case (Cons sm ms)
  obtain sh m where sm: "sm = (sh, m)" by (cases sm)
  with Cons.prems have "is_shuffle sh" and "list_all (\<lambda>sm. is_shuffle (fst sm)) ms" by simp_all
  with Cons.IH [of "snd (dispatch sh games m)"] sm show ?case
    by (simp add: cards_view_dispatch)
qed

section \<open>Dealing and the seed card\<close>

lemma pop_n_Some:
  "pop_n n d = Some (h, d') \<Longrightarrow> d = d' @ rev h \<and> length h = n"
proof (induction n arbitrary: d h d')
  case 0
  then show ?case by simp
next
  case (Suc n)
  from Suc.prems have ne: "d \<noteq> []" by (auto split: if_splits)
  with Suc.prems obtain h0 where p: "pop_n n (butlast d) = Some (h0, d')" and h: "h = last d # h0"
    by (auto split: option.splits)
  from Suc.IH [OF p] have "butlast d = d' @ rev h0" and "length h0 = n" by simp_all
  moreover from ne have "d = butlast d @ [last d]" by simp
  ultimately show ?case using h by simp
qed

lemma pop_n_None: "pop_n n d = None \<longleftrightarrow> length d < n"
proof (induction n arbitrary: d)
  case 0
  then show ?case by simp
next
  case (Suc n)
  show ?case
  proof (cases "d = []")
    case True
    then show ?thesis by simp
  next
    case False
    then have "length (butlast d) < n \<longleftrightarrow> length d < Suc n" by (cases d rule: rev_cases) auto
    with False Suc.IH [of "butlast d"] show ?thesis by (simp split: option.split) auto
  qed
qed

lemma deal_Some:
  "deal ps d = (ps', Some d') \<Longrightarrow>
     d = d' @ rev (concat (map hand ps')) \<and>
     length ps' = length ps \<and>
     (\<forall>p \<in> set ps'. length (hand p) = 7 \<and> \<not> calledUno p) \<and>
     map player_id ps' = map player_id ps \<and> map name ps' = map name ps \<and>
     map isHost ps' = map isHost ps"
proof (induction ps arbitrary: d ps')
  case Nil
  then show ?case by simp
next
  case (Cons p ps)
  from Cons.prems obtain h d1 where p7: "pop_n 7 d = Some (h, d1)"
    by (auto split: option.splits)
  obtain ps1 r where dl: "deal ps d1 = (ps1, r)" by (cases "deal ps d1")
  with Cons.prems p7 have r: "r = Some d'" and ps': "ps' = p\<lparr>hand := h, calledUno := False\<rparr> # ps1"
    by auto
  from Cons.IH [of d1 ps1] dl r have ih: "d1 = d' @ rev (concat (map hand ps1))"
     "length ps1 = length ps" "\<forall>p \<in> set ps1. length (hand p) = 7 \<and> \<not> calledUno p"
     "map player_id ps1 = map player_id ps" "map name ps1 = map name ps" "map isHost ps1 = map isHost ps"
    by simp_all
  from pop_n_Some [OF p7] have "d = d1 @ rev h" and "length h = 7" by simp_all
  with ih ps' show ?case by simp
qed

lemma deal_None:
  "deal ps d = (ps', None) \<Longrightarrow> length d < 7 * length ps"
proof (induction ps arbitrary: d ps')
  case Nil
  then show ?case by simp
next
  case (Cons p ps)
  show ?case
  proof (cases "pop_n 7 d")
    case None
    then have "length d < 7" by (simp add: pop_n_None)
    then show ?thesis by simp
  next
    case (Some hd)
    obtain h d1 where hd: "hd = (h, d1)" by (cases hd)
    obtain ps1 r where dl: "deal ps d1 = (ps1, r)" by (cases "deal ps d1")
    with Cons.prems Some hd have "r = None" by auto
    with Cons.IH [of d1 ps1] dl have "length d1 < 7 * length ps" by simp
    moreover from pop_n_Some [of 7 d h d1] Some hd have "length d = length d1 + 7" by simp
    ultimately show ?thesis by simp
  qed
qed

lemma seed_loop_wilds:
  assumes "\<forall>w \<in> set ws. color w = ''wild''" and "color c \<noteq> ''wild''"
  shows "seed_loop (last (b @ c # ws)) (butlast (b @ c # ws)) = Some (c, ws @ b)"
  using assms(1)
proof (induction ws arbitrary: b rule: rev_induct)
  case Nil
  from assms(2) show ?case by (simp add: seed_loop.simps [of c b])
next
  case (snoc w ws)
  from snoc.prems have w: "color w = ''wild''" and ws: "\<forall>w \<in> set ws. color w = ''wild''" by simp_all
  have "seed_loop (last (b @ c # ws @ [w])) (butlast (b @ c # ws @ [w])) = seed_loop w (b @ c # ws)"
    by (simp add: butlast_append)
  also have "\<dots> = seed_loop (last ((w # b) @ c # ws)) (butlast ((w # b) @ c # ws))"
    using w by (subst seed_loop.simps) simp
  also have "\<dots> = Some (c, ws @ w # b)" using snoc.IH [OF ws, of "w # b"] .
  finally show ?case by simp
qed

lemma seed_loop_Some:
  "seed_loop s d = Some r \<Longrightarrow>
     \<exists>b ws. d @ [s] = b @ fst r # ws \<and> (\<forall>w \<in> set ws. color w = ''wild'') \<and>
            color (fst r) \<noteq> ''wild'' \<and> snd r = ws @ b"
proof (induction rule: seed_loop.raw_induct [rotated 1, consumes 1])
  case (1 f s d r)
  show ?case
  proof (cases "color s = ''wild''")
    case False
    with 1(2) have "r = (s, d)" by simp
    with False show ?thesis by (intro exI [of _ d] exI [of _ "[]"]) simp
  next
    case True
    with 1(2) have "f (last (s # d)) (butlast (s # d)) = Some r" by simp
    from 1(1) [OF this] obtain b ws where
      eq: "butlast (s # d) @ [last (s # d)] = b @ fst r # ws" and ws: "\<forall>w \<in> set ws. color w = ''wild''"
      and c: "color (fst r) \<noteq> ''wild''" and r: "snd r = ws @ b" by blast
    from eq have eq': "s # d = b @ fst r # ws" by (simp del: butlast.simps last.simps)
    with True c obtain b2 where b: "b = s # b2" by (cases b) auto
    with eq' have "d @ [s] = b2 @ fst r # (ws @ [s])" by simp
    moreover from ws True have "\<forall>w \<in> set (ws @ [s]). color w = ''wild''" by simp
    moreover from r b have "snd r = (ws @ [s]) @ b2" by simp
    ultimately show ?thesis using c by blast
  qed
qed

text \<open>
  The seed loop ends exactly when the deck left after the deal holds a card that is not
  wild: on wild cards only it turns the deck for ever.
\<close>

lemma seed_loop_all_wild:
  assumes "\<forall>c \<in> set (s # d). color c = ''wild''"
  shows "seed_loop s d = None"
proof (cases "seed_loop s d")
  case None
  then show ?thesis .
next
  case (Some r)
  from seed_loop_Some [OF Some] obtain b ws where
    eq: "d @ [s] = b @ fst r # ws" and c: "color (fst r) \<noteq> ''wild''" by blast
  from eq have "fst r \<in> set (d @ [s])" by simp
  with assms c show ?thesis by auto
qed

lemma start_game_result:
  assumes sh: "is_shuffle shuffle"
    and g0: "games code = Some game0"
    and ok: "handle_start_game shuffle games code pid = Some (Broadcast game_started, games')"
  shows "\<exists>ps seed b ws.
     games' = games(code \<mapsto>
        \<lparr>players = ps, started = True,
         gameState = Some \<lparr>deck = ws @ b, discardPile = [seed],
            currentColor = Some (color seed), currentValue = card_value seed,
            currentPlayerIndex = 0, direction = 1, hasDrawn = False, winner = None\<rparr>\<rparr>) \<and>
     shuffle ordered_deck = b @ seed # ws @ rev (concat (map hand ps)) \<and>
     (\<forall>w \<in> set ws. color w = ''wild'') \<and> color seed \<noteq> ''wild'' \<and>
     length ps = length (players game0) \<and>
     (\<forall>p \<in> set ps. length (hand p) = 7 \<and> \<not> calledUno p) \<and>
     map player_id ps = map player_id (players game0) \<and>
     map name ps = map name (players game0) \<and>
     map isHost ps = map isHost (players game0)"
proof -
  obtain ps r where dl: "deal (players game0) (create_deck shuffle) = (ps, r)"
    by (cases "deal (players game0) (create_deck shuffle)")
  from ok g0 have host: "list_ex (\<lambda>p. player_id p = pid \<and> isHost p) (players game0)"
    by (auto simp: handle_start_game_def split: if_splits)
  from ok g0 host dl obtain d where r: "r = Some d"
    by (cases r) (auto simp: handle_start_game_def)
  from ok g0 host dl r have ne: "d \<noteq> []"
    by (auto simp: handle_start_game_def split: if_splits)
  from ok g0 host dl r ne obtain sd where sl: "seed_loop (last d) (butlast d) = Some sd"
    by (cases "seed_loop (last d) (butlast d)") (auto simp: handle_start_game_def)
  obtain seed d' where sd: "sd = (seed, d')" by (cases sd)
  from ok g0 host dl r ne sl sd have g': "games' = games(code \<mapsto>
        \<lparr>players = ps, started = True,
         gameState = Some \<lparr>deck = d', discardPile = [seed],
            currentColor = Some (color seed), currentValue = card_value seed,
            currentPlayerIndex = 0, direction = 1, hasDrawn = False, winner = None\<rparr>\<rparr>)"
    by (simp add: handle_start_game_def)
  from seed_loop_Some [OF sl] sd obtain b ws where
    eq: "butlast d @ [last d] = b @ seed # ws" and ws: "\<forall>w \<in> set ws. color w = ''wild''"
    and c: "color seed \<noteq> ''wild''" and d': "d' = ws @ b" by auto
  from eq ne have d: "d = b @ seed # ws" by simp
  from deal_Some [of "players game0" "create_deck shuffle" ps d] dl r
  have dd: "create_deck shuffle = d @ rev (concat (map hand ps))"
    and rest: "length ps = length (players game0)"
      "\<forall>p \<in> set ps. length (hand p) = 7 \<and> \<not> calledUno p"
      "map player_id ps = map player_id (players game0)"
      "map name ps = map name (players game0)"
      "map isHost ps = map isHost (players game0)"
    by simp_all
  from dd d have "shuffle ordered_deck = b @ seed # ws @ rev (concat (map hand ps))"
    by (simp add: create_deck_def)
  with g' d' ws c rest show ?thesis by blast
qed

lemma length_concat_hands:
  "\<forall>p \<in> set ps. length (hand p) = 7 \<Longrightarrow> length (concat (map hand ps)) = 7 * length ps"
  by (induction ps) simp_all

lemma wilds_in_deck: "length (filter (\<lambda>c. color c = ''wild'') ordered_deck) = 8"
  by (simp add: ordered_deck_def COLORS_def VALUES_def)

lemma shuffle_length: "is_shuffle shuffle \<Longrightarrow> length (shuffle xs) = length xs"
  by (metis is_shuffle_def size_mset)

lemma shuffle_filter:
  "is_shuffle shuffle \<Longrightarrow> length (filter P (shuffle xs)) = length (filter P xs)"
  by (metis is_shuffle_def mset_filter size_mset)

text \<open>
  With at most 14 players at least ten cards are left after the deal and the deck has
  eight wild cards, so the seed loop ends and the start reaches its broadcast.
\<close>

lemma start_game_returns:
  assumes sh: "is_shuffle shuffle"
    and g0: "games code = Some game0"
    and host: "list_ex (\<lambda>p. player_id p = pid \<and> isHost p) (players game0)"
    and n: "length (players game0) \<le> 14"
  shows "\<exists>games'. handle_start_game shuffle games code pid = Some (Broadcast game_started, games')"
proof -
  have len: "length (create_deck shuffle) = 108"
    using sh by (simp add: create_deck_def shuffle_length length_ordered_deck)
  obtain ps r where dl: "deal (players game0) (create_deck shuffle) = (ps, r)"
    by (cases "deal (players game0) (create_deck shuffle)")
  have "r \<noteq> None"
  proof
    assume "r = None"
    with dl deal_None [of "players game0" "create_deck shuffle" ps] len n show False by simp
  qed
  then obtain d where r: "r = Some d" by auto
  from deal_Some [of "players game0" "create_deck shuffle" ps d] dl r
  have dd: "create_deck shuffle = d @ rev (concat (map hand ps))"
    and lps: "length ps = length (players game0)"
    and h7: "\<forall>p \<in> set ps. length (hand p) = 7 \<and> \<not> calledUno p" by simp_all
  from h7 have "length (concat (map hand ps)) = 7 * length ps"
    by (intro length_concat_hands) simp
  moreover from dd have "length (create_deck shuffle) = length d + length (concat (map hand ps))"
    by simp
  ultimately have ld: "10 \<le> length d" using len lps n by linarith
  then have ne: "d \<noteq> []" by auto
  have "length (filter (\<lambda>c. color c = ''wild'') d) \<le>
        length (filter (\<lambda>c. color c = ''wild'') (create_deck shuffle))"
    by (simp add: dd)
  also have "\<dots> = 8"
    using sh by (simp add: create_deck_def shuffle_filter wilds_in_deck)
  finally have w8: "length (filter (\<lambda>c. color c = ''wild'') d) \<le> 8" .
  have "\<exists>c \<in> set d. color c \<noteq> ''wild''"
  proof (rule ccontr)
    assume "\<not> (\<exists>c \<in> set d. color c \<noteq> ''wild'')"
    then have "filter (\<lambda>c. color c = ''wild'') d = d" by (simp add: filter_id_conv)
    with w8 ld show False by simp
  qed
  from split_list_last_prop [OF this] obtain b seed ws where
    d: "d = b @ seed # ws" and c: "color seed \<noteq> ''wild''"
    and ws: "\<forall>w \<in> set ws. color w = ''wild''" by auto
  from seed_loop_wilds [OF ws c, of b] d
  have "seed_loop (last d) (butlast d) = Some (seed, ws @ b)" by simp
  with g0 host dl r ne show ?thesis
    by (simp add: handle_start_game_def)
qed

lemma ex_start_ok:
  "case handle_start_game id ex_lobby ''ABCD'' ''p1'' of
     None \<Rightarrow> False
   | Some (out, g) \<Rightarrow> out = Broadcast game_started"
  by code_simp

lemma is_shuffle_id: "is_shuffle id"
  by (simp add: is_shuffle_def)

lemma is_shuffle_rev: "is_shuffle rev"
  by (simp add: is_shuffle_def)

lemma start_game_sizes:
  assumes "is_shuffle shuffle"
    and "games code = Some game0"
    and "handle_start_game shuffle games code pid = Some (Broadcast game_started, games')"
  shows "\<exists>game state seed.
     games' code = Some game \<and> gameState game = Some state \<and> started game \<and>
     length (players game) = length (players game0) \<and>
     (\<forall>p \<in> set (players game). length (hand p) = 7) \<and>
     discardPile state = [seed] \<and> color seed \<noteq> ''wild'' \<and>
     length (deck state) + 7 * length (players game0) + 1 = 108 \<and>
     currentPlayerIndex state = 0 \<and> direction state = 1 \<and>
     (\<exists>b ws. shuffle ordered_deck = b @ seed # ws @ rev (concat (map hand (players game))) \<and>
        (\<forall>w \<in> set ws. color w = ''wild'') \<and> deck state = ws @ b)"
proof -
  from start_game_result [OF assms] obtain ps seed b ws where
    g': "games' = games(code \<mapsto>
        \<lparr>players = ps, started = True,
         gameState = Some \<lparr>deck = ws @ b, discardPile = [seed],
            currentColor = Some (color seed), currentValue = card_value seed,
            currentPlayerIndex = 0, direction = 1, hasDrawn = False, winner = None\<rparr>\<rparr>)"
    and sd: "shuffle ordered_deck = b @ seed # ws @ rev (concat (map hand ps))"
    and ws: "\<forall>w \<in> set ws. color w = ''wild''" and c: "color seed \<noteq> ''wild''"
    and n: "length ps = length (players game0)"
    and h7: "\<forall>p \<in> set ps. length (hand p) = 7 \<and> \<not> calledUno p"
    by blast
  from h7 have "length (concat (map hand ps)) = 7 * length ps"
    by (intro length_concat_hands) simp
  moreover have "length (shuffle ordered_deck) = 108"
    using assms(1) by (simp add: shuffle_length length_ordered_deck)
  ultimately have "length (ws @ b) + 7 * length (players game0) + 1 = 108"
    using sd n by simp
  with g' sd ws c n h7 show ?thesis by auto
qed

section \<open>Playing a card\<close>

lemma play_card_accepted:
  assumes "games code = Some game" and "gameState game = Some state"
    and "py_index (players game) (currentPlayerIndex state) = Some i"
    and "player_id (players game ! i) = pid"
    and "find (\<lambda>c. card_id c = cid) (hand (players game ! i)) = Some c"
  shows "handle_play_card games code pid cid chosen =
     (case resolve_play i c chosen (players game, state) of
        (out, ps, state') \<Rightarrow>
          (out, games(code \<mapsto> game\<lparr>players := ps, gameState := Some state'\<rparr>)))"
  using assms by (simp add: handle_play_card_def)

lemma map_calledUno_card_effect:
  assumes "ps \<noteq> []"
  shows "map calledUno (fst (card_effect c (ps, state))) = map calledUno ps"
    and "map player_id (fst (card_effect c (ps, state))) = map player_id ps"
proof -
  have j: "nat (get_next_player_index ps state) < length ps"
    using assms by (rule next_index_in_range)
  have "map calledUno (ps[j := (ps ! j)\<lparr>hand := h\<rparr>]) = map calledUno ps" if "j < length ps" for j h
    using that by (simp add: map_update list_update_same_conv)
  moreover have "map player_id (ps[j := (ps ! j)\<lparr>hand := h\<rparr>]) = map player_id ps" if "j < length ps" for j h
    using that by (simp add: map_update list_update_same_conv)
  ultimately show "map calledUno (fst (card_effect c (ps, state))) = map calledUno ps"
    and "map player_id (fst (card_effect c (ps, state))) = map player_id ps"
    using j by (simp_all add: card_effect_def Let_def)
qed

lemma hasDrawn_advance_turn: "\<not> hasDrawn (snd (advance_turn pst))"
  by (cases pst) (simp add: advance_turn_def)

lemma fst_advance_turn: "fst (advance_turn pst) = fst pst"
  by (cases pst) (simp add: advance_turn_def)

lemma draw_if_any_eq: "draw_if_any (d, h) = (butlast d, h @ take 1 (rev d))"
  by (cases d rule: rev_cases) (simp_all add: draw_if_any_def)

lemma draw_two_eq: "draw_two (d, h) = (take (length d - 2) d, h @ take 2 (rev d))"
proof (cases d rule: rev_cases)
  case Nil
  then show ?thesis by (simp add: draw_two_def draw_if_any_eq)
next
  case (snoc xs a)
  then show ?thesis
    by (cases xs rule: rev_cases) (simp_all add: draw_two_def draw_if_any_eq butlast_append)
qed

lemma next_index_other:
  assumes "py_index ps (currentPlayerIndex state) = Some i"
    and "2 \<le> length ps" and "direction state = 1 \<or> direction state = - 1"
  shows "nat (get_next_player_index ps state) \<noteq> i"
proof
  assume eq: "nat (get_next_player_index ps state) = i"
  define n where "n = int (length ps)"
  define k where "k = currentPlayerIndex state"
  have n: "2 \<le> n" using assms(2) by (simp add: n_def)
  from assms(1) have "int i = k \<or> int i = n + k"
    by (auto simp: py_index_def n_def k_def split: if_splits)
  then have ik: "int i mod n = k mod n" by auto
  have ii: "int i mod n = int i"
    using py_index_Some [OF assms(1)] by (simp add: n_def)
  have "0 \<le> (k + direction state) mod n" using n by simp
  with eq have "(k + direction state) mod n = int i"
    by (simp add: get_next_player_index_def n_def k_def nat_eq_iff)
  also have "\<dots> = int i mod n" by (simp only: ii)
  also have "\<dots> = k mod n" by (rule ik)
  finally have "(k + direction state) mod n = k mod n" .
  then have "n dvd direction state" by (simp add: mod_eq_dvd_iff)
  with assms(3) n show False by (auto dest: zdvd_imp_le)
qed

lemma resolve_play_steps:
  assumes "i < length ps" and "remove1 c (hand (ps ! i)) \<noteq> []"
  shows "resolve_play i c chosen (ps, state) =
     (Broadcast game_update, advance_turn (card_effect c (after_penalty i c chosen (ps, state))))"
proof -
  have "penalty i (ps[i := (ps ! i)\<lparr>hand := remove1 c (hand (ps ! i))\<rparr>],
          state\<lparr>discardPile := discardPile state @ [c],
                currentColor := (if color c = ''wild'' then chosen else Some (color c)),
                currentValue := card_value c\<rparr>) = after_penalty i c chosen (ps, state)"
    using assms(1) by (simp add: penalty_def after_penalty_def Let_def draw_two_eq)
  with assms show ?thesis by (simp add: resolve_play_def Let_def)
qed

lemma after_penalty_facts:
  assumes "i < length ps"
  shows "length (fst (after_penalty i c chosen (ps, state))) = length ps"
    and "currentPlayerIndex (snd (after_penalty i c chosen (ps, state))) = currentPlayerIndex state"
    and "direction (snd (after_penalty i c chosen (ps, state))) = direction state"
    and "get_next_player_index (fst (after_penalty i c chosen (ps, state)))
           (snd (after_penalty i c chosen (ps, state))) = get_next_player_index ps state"
    and "\<not> calledUno (fst (after_penalty i c chosen (ps, state)) ! i)"
    and "hand (fst (after_penalty i c chosen (ps, state)) ! i) =
           remove1 c (hand (ps ! i)) @
           (if length (remove1 c (hand (ps ! i))) = 1 \<and> \<not> calledUno (ps ! i)
            then take 2 (rev (deck state)) else [])"
    and "deck (snd (after_penalty i c chosen (ps, state))) =
           (if length (remove1 c (hand (ps ! i))) = 1 \<and> \<not> calledUno (ps ! i)
            then take (length (deck state) - 2) (deck state) else deck state)"
  using assms by (simp_all add: after_penalty_def Let_def get_next_player_index_def)

lemma after_penalty_other:
  "k \<noteq> i \<Longrightarrow> fst (after_penalty i c chosen (ps, state)) ! k = ps ! k"
  by (simp add: after_penalty_def Let_def)

lemma card_effect_draw2:
  assumes "card_value c = ''draw2''"
  shows "card_effect c (ps, state) =
     (ps[nat (get_next_player_index ps state) :=
          (ps ! nat (get_next_player_index ps state))
            \<lparr>hand := hand (ps ! nat (get_next_player_index ps state)) @ take 2 (rev (deck state))\<rparr>],
      state\<lparr>deck := take (length (deck state) - 2) (deck state)\<rparr>)"
  using assms by (simp add: card_effect_def Let_def draw_two_eq)

lemma card_effect_other:
  assumes "card_value c \<noteq> ''draw2''"
  shows "fst (card_effect c (ps, state)) = ps"
    and "deck (snd (card_effect c (ps, state))) = deck state"
  using assms by (simp_all add: card_effect_def)

lemma draw_from_deck:
  assumes "games code = Some game" and "gameState game = Some state"
    and "py_index (players game) (currentPlayerIndex state) = Some i"
    and "player_id (players game ! i) = pid"
    and "deck state \<noteq> []"
  shows "handle_draw shuffle games code pid =
     (Broadcast game_update,
      games(code \<mapsto> game
        \<lparr>players := (players game)
           [i := (players game ! i)\<lparr>hand := hand (players game ! i) @ [last (deck state)]\<rparr>],
         gameState := Some (state\<lparr>deck := butlast (deck state), hasDrawn := True\<rparr>)\<rparr>))"
  using assms by (simp add: handle_draw_def recycle_def)

lemma py_index_length: "length xs = length ys \<Longrightarrow> py_index xs k = py_index ys k"
  by (simp add: py_index_def)

lemma can_draw_step:
  assumes "can_draw games code pid (Suc n)"
  shows "fst (handle_draw shuffle games code pid) = Broadcast game_update \<and>
         can_draw (snd (handle_draw shuffle games code pid)) code pid n"
proof -
  from assms obtain game state i where
    g: "games code = Some game" and s: "gameState game = Some state"
    and ix: "py_index (players game) (currentPlayerIndex state) = Some i"
    and p: "player_id (players game ! i) = pid"
    and d: "length (deck state) = Suc n" and dp: "length (discardPile state) = 1"
    by (auto simp: can_draw_def split: option.splits)
  from d have ne: "deck state \<noteq> []" by auto
  from ix have i: "i < length (players game)" by (rule py_index_Some)
  have ix': "py_index ((players game)[i := q]) (currentPlayerIndex state) = Some i" for q
    using ix py_index_length [of "(players game)[i := q]" "players game"] by simp
  show ?thesis
    unfolding draw_from_deck [where games = games and code = code, OF g s ix p ne]
    using i p d dp by (simp add: can_draw_def ix')
qed

lemma can_draw_run:
  "can_draw games code pid n \<Longrightarrow>
   can_draw (run games (replicate n (shuffle, draw_card code pid))) code pid 0"
proof (induction n arbitrary: games)
  case 0
  then show ?case by simp
next
  case (Suc n)
  from can_draw_step [OF Suc.prems, of shuffle]
  have "can_draw (snd (handle_draw shuffle games code pid)) code pid n" by simp
  from Suc.IH [OF this] show ?case by simp
qed

lemma can_draw_empty:
  assumes "can_draw games code pid 0" and "shuffle [] = []"
  shows "fst (handle_draw shuffle games code pid) = Raised IndexError"
proof -
  from assms(1) obtain game state i where
    g: "games code = Some game" and s: "gameState game = Some state"
    and ix: "py_index (players game) (currentPlayerIndex state) = Some i"
    and p: "player_id (players game ! i) = pid"
    and d: "deck state = []" and dp: "length (discardPile state) = 1"
    by (auto simp: can_draw_def split: option.splits)
  from dp have "discardPile state \<noteq> []" and "butlast (discardPile state) = []"
    by (cases "discardPile state"; simp)+
  with g s ix p d assms(2) show ?thesis
    by (simp add: handle_draw_def recycle_def)
qed

lemma shuffle_Nil: "is_shuffle shuffle \<Longrightarrow> shuffle [] = []"
  by (metis is_shuffle_def mset_zero_iff)

section \<open>No handler reads the winner\<close>

lemma penalty_after_removal:
  assumes "i < length ps"
  shows "penalty i (ps[i := (ps ! i)\<lparr>hand := remove1 c (hand (ps ! i))\<rparr>],
          state\<lparr>discardPile := discardPile state @ [c],
                currentColor := (if color c = ''wild'' then chosen else Some (color c)),
                currentValue := card_value c\<rparr>) = after_penalty i c chosen (ps, state)"
  using assms by (simp add: penalty_def after_penalty_def Let_def draw_two_eq)

lemma resolve_play_winner:
  "fst (resolve_play i c chosen (ps, state\<lparr>winner := w\<rparr>)) =
     fst (resolve_play i c chosen (ps, state))"
  "fst (snd (resolve_play i c chosen (ps, state\<lparr>winner := w\<rparr>))) =
     fst (snd (resolve_play i c chosen (ps, state)))"
  "(snd (snd (resolve_play i c chosen (ps, state\<lparr>winner := w\<rparr>))))\<lparr>winner := None\<rparr> =
     (snd (snd (resolve_play i c chosen (ps, state))))\<lparr>winner := None\<rparr>"
  by (simp_all add: resolve_play_def penalty_def card_effect_def advance_turn_def
      get_next_player_index_def Let_def)

lemma forget_winner_upd:
  "forget_winner (games(code \<mapsto> game)) = (forget_winner games)(code \<mapsto> with_winner None game)"
  by (rule ext) (simp add: forget_winner_def)

lemma forget_winner_app:
  "forget_winner games code = map_option (with_winner None) (games code)"
  by (simp add: forget_winner_def)

lemma with_winner_twice: "with_winner w (with_winner w' game) = with_winner w game"
  by (cases "gameState game") (simp_all add: with_winner_def)

lemma forget_winner_idem: "forget_winner (forget_winner games) = forget_winner games"
  by (rule ext) (simp add: forget_winner_def option.map_comp comp_def with_winner_twice)

lemma with_winner_fields:
  "players (with_winner w game) = players game"
  "gameState game = None \<Longrightarrow> gameState (with_winner w game) = None"
  "gameState game = Some state \<Longrightarrow> gameState (with_winner w game) = Some (state\<lparr>winner := w\<rparr>)"
  by (simp_all add: with_winner_def)

lemma with_winner_result:
  "gameState game \<noteq> None \<Longrightarrow>
   with_winner w ((with_winner w' game)\<lparr>players := ps, gameState := Some state\<rparr>) =
   game\<lparr>players := ps, gameState := Some (state\<lparr>winner := w\<rparr>)\<rparr>"
  "with_winner w (game\<lparr>players := ps, gameState := Some state\<rparr>) =
   game\<lparr>players := ps, gameState := Some (state\<lparr>winner := w\<rparr>)\<rparr>"
  by (simp_all add: with_winner_def)

lemma play_card_ignores_winner:
  "fst (handle_play_card (forget_winner games) code pid cid chosen) =
     fst (handle_play_card games code pid cid chosen) \<and>
   forget_winner (snd (handle_play_card (forget_winner games) code pid cid chosen)) =
     forget_winner (snd (handle_play_card games code pid cid chosen))"
proof (cases "games code")
  case None
  then show ?thesis by (simp add: handle_play_card_def forget_winner_app forget_winner_idem)
next
  case (Some game)
  show ?thesis
  proof (cases "gameState game")
    case None
    with Some show ?thesis
      by (simp add: handle_play_card_def forget_winner_app forget_winner_idem with_winner_fields)
  next
    case st: (Some state)
    show ?thesis
    proof (cases "py_index (players game) (currentPlayerIndex state)")
      case None
      with Some st show ?thesis
        by (simp add: handle_play_card_def forget_winner_app forget_winner_idem with_winner_fields)
    next
      case ix: (Some i)
      show ?thesis
      proof (cases "find (\<lambda>c. card_id c = cid) (hand (players game ! i))")
        case None
        with Some st ix show ?thesis
          by (simp add: handle_play_card_def forget_winner_app forget_winner_idem with_winner_fields)
      next
        case fd: (Some c)
        obtain out ps state' where r: "resolve_play i c chosen (players game, state) = (out, ps, state')"
          by (cases "resolve_play i c chosen (players game, state)")
        obtain out0 ps0 state0 where
          r0: "resolve_play i c chosen (players game, state\<lparr>winner := None\<rparr>) = (out0, ps0, state0)"
          by (cases "resolve_play i c chosen (players game, state\<lparr>winner := None\<rparr>)")
        from resolve_play_winner [where i = i and c = c and chosen = chosen and ps = "players game"
            and state = state and w = None] r r0
        have eq: "out0 = out" "ps0 = ps" "state0\<lparr>winner := None\<rparr> = state'\<lparr>winner := None\<rparr>"
          by simp_all
        have ne: "gameState game \<noteq> None" using st by simp
        show ?thesis
        proof (cases "player_id (players game ! i) = pid")
          case False
          with Some st ix show ?thesis
            by (simp add: handle_play_card_def forget_winner_app forget_winner_idem with_winner_fields)
        next
          case True
          with Some st ix fd r r0 eq ne show ?thesis
            by (simp add: handle_play_card_def forget_winner_app forget_winner_idem
                with_winner_fields forget_winner_upd with_winner_result)
               (simp add: with_winner_def)
        qed
      qed
    qed
  qed
qed

lemma draw_ignores_winner:
  "fst (handle_draw shuffle (forget_winner games) code pid) =
     fst (handle_draw shuffle games code pid) \<and>
   forget_winner (snd (handle_draw shuffle (forget_winner games) code pid)) =
     forget_winner (snd (handle_draw shuffle games code pid))"
proof (cases "games code")
  case None
  then show ?thesis by (simp add: handle_draw_def forget_winner_app forget_winner_idem)
next
  case (Some game)
  show ?thesis
  proof (cases "gameState game")
    case None
    with Some show ?thesis
      by (simp add: handle_draw_def forget_winner_app forget_winner_idem with_winner_fields)
  next
    case st: (Some state)
    have ne: "gameState game \<noteq> None" using st by simp
    have rc: "recycle shuffle (state\<lparr>winner := None\<rparr>) =
        map_option (\<lambda>s. s\<lparr>winner := None\<rparr>) (recycle shuffle state)"
      by (simp add: recycle_def)
    show ?thesis
    proof (cases "recycle shuffle state")
      case None
      with Some st rc show ?thesis
        by (simp add: handle_draw_def forget_winner_app forget_winner_idem with_winner_fields
            split: option.split)
    next
      case r1: (Some state1)
      have w1: "with_winner None ((with_winner None game)\<lparr>gameState := Some s\<rparr>) =
                with_winner None (game\<lparr>gameState := Some (s\<lparr>winner := w\<rparr>)\<rparr>)" for s w
        by (simp add: with_winner_def)
      from Some st rc r1 ne show ?thesis
        by (simp add: handle_draw_def forget_winner_app forget_winner_idem with_winner_fields
            forget_winner_upd split: option.split) (simp add: with_winner_def)
    qed
  qed
qed

lemma call_uno_ignores_winner:
  "fst (handle_call_uno (forget_winner games) code pid) =
     fst (handle_call_uno games code pid) \<and>
   forget_winner (snd (handle_call_uno (forget_winner games) code pid)) =
     forget_winner (snd (handle_call_uno games code pid))"
proof (cases "games code")
  case None
  then show ?thesis by (simp add: handle_call_uno_def forget_winner_app forget_winner_idem)
next
  case (Some game)
  show ?thesis
  proof (cases "gameState game")
    case None
    with Some show ?thesis
      by (simp add: handle_call_uno_def forget_winner_app forget_winner_idem with_winner_fields)
  next
    case st: (Some state)
    have w1: "with_winner None ((with_winner None game)\<lparr>players := ps\<rparr>) =
              with_winner None (game\<lparr>players := ps\<rparr>)" for ps
      using st by (simp add: with_winner_def)
    from Some st show ?thesis
      by (simp add: handle_call_uno_def forget_winner_app forget_winner_idem with_winner_fields
          forget_winner_upd w1)
  qed
qed

lemma dispatch_ignores_winner:
  "fst (dispatch shuffle (forget_winner games) m) = fst (dispatch shuffle games m) \<and>
   forget_winner (snd (dispatch shuffle (forget_winner games) m)) =
     forget_winner (snd (dispatch shuffle games m))"
  by (cases m) (simp_all add: play_card_ignores_winner draw_ignores_winner call_uno_ignores_winner)

lemma run_ignores_winner:
  "run_outcomes (forget_winner games) ms = run_outcomes games ms \<and>
   forget_winner (run (forget_winner games) ms) = forget_winner (run games ms)"
proof (induction ms arbitrary: games)
  case Nil
  show ?case by (simp add: forget_winner_idem)
next
  case (Cons sm ms)
  obtain sh m where sm: "sm = (sh, m)" by (cases sm)
  define g1 where "g1 = snd (dispatch sh (forget_winner games) m)"
  define g2 where "g2 = snd (dispatch sh games m)"
  from dispatch_ignores_winner [of sh games m]
  have o: "fst (dispatch sh (forget_winner games) m) = fst (dispatch sh games m)"
    and f: "forget_winner g1 = forget_winner g2" by (simp_all add: g1_def g2_def)
  from Cons.IH [of g1] Cons.IH [of g2] f
  have "run_outcomes g1 ms = run_outcomes g2 ms"
    and "forget_winner (run g1 ms) = forget_winner (run g2 ms)" by simp_all
  with o sm show ?case by (simp add: g1_def g2_def)
qed

section \<open>Facts of the example table\<close>

lemmas ex_defs = ex_table_def ex_game_def ex_state_def ex_players_def ex_deck_def
  ex_discard_def ex_card_def

lemmas play_defs = handle_play_card_def resolve_play_def penalty_def card_effect_def
  advance_turn_def get_next_player_index_def draw_two_def draw_if_any_def py_index_def

lemma ex_table_facts:
  "ex_table turn d ''ABCD'' = Some (ex_game turn d)"
  "gameState (ex_game turn d) = Some (ex_state turn d)"
  "players (ex_game turn d) = ex_players"
  "currentPlayerIndex (ex_state turn d) = turn"
  "direction (ex_state turn d) = 1"
  "deck (ex_state turn d) = d"
  "discardPile (ex_state turn d) = ex_discard"
  by (simp_all add: ex_table_def ex_game_def ex_state_def)

section \<open>The claims\<close>

text \<open>
  C1. From a started match on, after any run of play, draw and declare messages (accepted
  or not, for this match or another), the hands, the draw pile and the discard pile of
  the match hold 108 cards, and they are the cards of the deck: none is made, doubled or
  lost.
\<close>

theorem cards_conserved:
  assumes "is_shuffle shuffle"
    and "games code = Some game0"
    and "handle_start_game shuffle games code pid = Some (Broadcast game_started, games1)"
    and "list_all (\<lambda>sm. is_shuffle (fst sm)) ms"
  shows "\<exists>game. run games1 ms code = Some game \<and> card_total game = 108 \<and>
           mset (all_cards game) = mset ordered_deck"
proof -
  from start_game_result [OF assms(1-3)] obtain ps seed b ws st where
    g1: "games1 code = Some \<lparr>players = ps, started = True, gameState = Some st\<rparr>"
    and st: "deck st = ws @ b" "discardPile st = [seed]"
    and sd: "shuffle ordered_deck = b @ seed # ws @ rev (concat (map hand ps))"
    by fastforce
  have "mset (all_cards \<lparr>players = ps, started = True, gameState = Some st\<rparr>) =
        mset (shuffle ordered_deck)"
    by (simp add: all_cards_def st sd)
  also have "\<dots> = mset ordered_deck" using assms(1) by (simp add: is_shuffle_def)
  finally have "cards_view games1 code = Some (mset ordered_deck)"
    by (simp add: cards_view_def g1)
  with cards_view_run [OF assms(4), of games1 code]
  have "cards_view (run games1 ms) code = Some (mset ordered_deck)" by simp
  then obtain game where r: "run games1 ms code = Some game"
    and m: "mset (all_cards game) = mset ordered_deck"
    by (auto simp: cards_view_def)
  from m have "length (all_cards game) = length ordered_deck" by (rule mset_eq_length)
  with r m show ?thesis by (simp add: card_total_length length_ordered_deck)
qed

theorem cards_conserved_witness:
  "is_shuffle id \<and> ex_lobby ''ABCD'' \<noteq> None \<and> list_all (\<lambda>sm. is_shuffle (fst sm)) ex_msgs \<and>
   (\<exists>games1. handle_start_game id ex_lobby ''ABCD'' ''p1'' = Some (Broadcast game_started, games1) \<and>
     (\<exists>game. run games1 ex_msgs ''ABCD'' = Some game \<and> card_total game = 108 \<and>
           mset (all_cards game) = mset ordered_deck))"
proof -
  have g0: "ex_lobby ''ABCD'' = Some \<lparr>players = [ex_host], started = False, gameState = None\<rparr>"
    by (simp add: ex_lobby_def)
  have ms: "list_all (\<lambda>sm. is_shuffle (fst sm)) ex_msgs"
    by (simp add: ex_msgs_def is_shuffle_id is_shuffle_rev)
  from ex_start_ok obtain games1 where
    ok: "handle_start_game id ex_lobby ''ABCD'' ''p1'' = Some (Broadcast game_started, games1)"
    by (auto split: option.splits)
  from cards_conserved [OF is_shuffle_id g0 ok ms] g0 ok ms is_shuffle_id
  show ?thesis by auto
qed

text \<open>
  C2, as the code has it. A play that empties the hand of the player to move sets
  \<open>winner\<close> to that player's name and ends the handler at once with the
  \<open>game_over\<close> broadcast: the card lies on the discard pile and sets colour and value,
  and nothing else changes (no penalty, no effect of the card, the turn and
  \<open>hasDrawn\<close> stay). The game state has no phase and no handler reads \<open>winner\<close>:
  every later run of play, draw and declare messages has the same outcomes and leaves the
  same registry, the winner entries aside, as it has on the registry with no winner
  recorded.
\<close>

theorem winning_play_sets_winner:
  assumes "games code = Some game" and "gameState game = Some state"
    and "py_index (players game) (currentPlayerIndex state) = Some i"
    and "player_id (players game ! i) = pid"
    and "find (\<lambda>c. card_id c = cid) (hand (players game ! i)) = Some c"
    and "remove1 c (hand (players game ! i)) = []"
  shows "handle_play_card games code pid cid chosen =
     (Broadcast (game_over (name (players game ! i))),
      games(code \<mapsto> game
        \<lparr>players := (players game)[i := (players game ! i)\<lparr>hand := []\<rparr>],
         gameState := Some (state
           \<lparr>discardPile := discardPile state @ [c],
            currentColor := (if color c = ''wild'' then chosen else Some (color c)),
            currentValue := card_value c,
            winner := Some (name (players game ! i))\<rparr>)\<rparr>)) \<and>
   (\<forall>ms.
      run_outcomes (snd (handle_play_card games code pid cid chosen)) ms =
        run_outcomes (forget_winner (snd (handle_play_card games code pid cid chosen))) ms \<and>
      forget_winner (run (snd (handle_play_card games code pid cid chosen)) ms) =
        forget_winner (run (forget_winner (snd (handle_play_card games code pid cid chosen))) ms))"
proof -
  from assms(3) have "i < length (players game)" by (rule py_index_Some)
  with assms(6) have "handle_play_card games code pid cid chosen =
     (Broadcast (game_over (name (players game ! i))),
      games(code \<mapsto> game
        \<lparr>players := (players game)[i := (players game ! i)\<lparr>hand := []\<rparr>],
         gameState := Some (state
           \<lparr>discardPile := discardPile state @ [c],
            currentColor := (if color c = ''wild'' then chosen else Some (color c)),
            currentValue := card_value c,
            winner := Some (name (players game ! i))\<rparr>)\<rparr>))"
    unfolding play_card_accepted [where games = games and code = code, OF assms(1-5)]
    by (simp add: resolve_play_def Let_def)
  moreover have "run_outcomes won ms = run_outcomes (forget_winner won) ms \<and>
      forget_winner (run won ms) = forget_winner (run (forget_winner won) ms)" for won ms
    using run_ignores_winner [of won ms] by simp
  ultimately show ?thesis by blast
qed

theorem winning_play_sets_winner_witness:
  "find (\<lambda>c. card_id c = ''green-reverse-1'') (hand (players (ex_game 2 ex_deck) ! 2)) =
     Some (ex_card ''green'' ''reverse'') \<and>
   remove1 (ex_card ''green'' ''reverse'') (hand (players (ex_game 2 ex_deck) ! 2)) = [] \<and>
   handle_play_card (ex_table 2 ex_deck) ''ABCD'' ''p3'' ''green-reverse-1'' None =
     (Broadcast (game_over ''Cy''),
      (ex_table 2 ex_deck)(''ABCD'' \<mapsto> (ex_game 2 ex_deck)
        \<lparr>players := ex_players[2 := (ex_players ! 2)\<lparr>hand := []\<rparr>],
         gameState := Some ((ex_state 2 ex_deck)
           \<lparr>discardPile := ex_discard @ [ex_card ''green'' ''reverse''],
            currentColor := Some ''green'', currentValue := ''reverse'',
            winner := Some ''Cy''\<rparr>)\<rparr>)) \<and>
   run_outcomes ex_won ex_later = run_outcomes (forget_winner ex_won) ex_later \<and>
   forget_winner (run ex_won ex_later) = forget_winner (run (forget_winner ex_won) ex_later) \<and>
   run_outcomes ex_won ex_later =
     [Broadcast game_update, Broadcast game_update, Broadcast (game_over ''Cy'')]"
proof -
  have ix: "py_index (players (ex_game 2 ex_deck)) (currentPlayerIndex (ex_state 2 ex_deck)) = Some 2"
    by (simp add: ex_table_facts ex_players_def py_index_def)
  have p: "player_id (players (ex_game 2 ex_deck) ! 2) = ''p3''"
    by (simp add: ex_table_facts ex_players_def py_index_def)
  have f: "find (\<lambda>c. card_id c = ''green-reverse-1'') (hand (players (ex_game 2 ex_deck) ! 2)) =
     Some (ex_card ''green'' ''reverse'')"
    by (simp add: ex_table_facts ex_players_def ex_card_def)
  have r: "remove1 (ex_card ''green'' ''reverse'') (hand (players (ex_game 2 ex_deck) ! 2)) = []"
    by (simp add: ex_table_facts ex_players_def ex_card_def)
  note w = winning_play_sets_winner [where games = "ex_table 2 ex_deck" and code = "''ABCD''"
      and chosen = None, OF ex_table_facts(1) ex_table_facts(2) ix p f r]
  from w have a: "handle_play_card (ex_table 2 ex_deck) ''ABCD'' ''p3'' ''green-reverse-1'' None =
     (Broadcast (game_over ''Cy''),
      (ex_table 2 ex_deck)(''ABCD'' \<mapsto> (ex_game 2 ex_deck)
        \<lparr>players := ex_players[2 := (ex_players ! 2)\<lparr>hand := []\<rparr>],
         gameState := Some ((ex_state 2 ex_deck)
           \<lparr>discardPile := ex_discard @ [ex_card ''green'' ''reverse''],
            currentColor := Some ''green'', currentValue := ''reverse'',
            winner := Some ''Cy''\<rparr>)\<rparr>))"
    by (simp add: ex_table_facts) (simp add: ex_players_def ex_card_def)
  from w have b: "run_outcomes ex_won ex_later = run_outcomes (forget_winner ex_won) ex_later"
    and c: "forget_winner (run ex_won ex_later) = forget_winner (run (forget_winner ex_won) ex_later)"
    unfolding ex_won_def by blast+
  have d: "run_outcomes ex_won ex_later =
     [Broadcast game_update, Broadcast game_update, Broadcast (game_over ''Cy'')]"
    by (simp add: ex_won_def ex_later_def ex_defs play_defs handle_draw_def recycle_def
        handle_call_uno_def)
  from f r a b c d show ?thesis by blast
qed

text \<open>
  After Cy has won with the last card, Cy is still the player to move, and a draw by Cy
  is served: it broadcasts an update and Cy holds a card again.
\<close>

theorem play_after_win_counterexample:
  "handle_play_card (ex_table 2 ex_deck) ''ABCD'' ''p3'' ''green-reverse-1'' None =
     (Broadcast (game_over ''Cy''), ex_won) \<and>
   table_view ex_won ''ABCD'' = Some ([3, 2, 0, 2], 4, 4, 2) \<and>
   fst (handle_draw id ex_won ''ABCD'' ''p3'') = Broadcast game_update \<and>
   table_view (snd (handle_draw id ex_won ''ABCD'' ''p3'')) ''ABCD'' = Some ([3, 2, 1, 2], 3, 4, 2) \<and>
   snd (handle_draw id ex_won ''ABCD'' ''p3'') ''ABCD'' \<noteq> ex_won ''ABCD''"
  by (simp add: ex_won_def ex_defs play_defs handle_draw_def recycle_def table_view_def)

text \<open>
  C3, as the code has it. In a match of at least two players, a draw2 that does not
  empty the hand makes the next player in the direction of play draw the two top cards
  of the draw pile as the penalty loop left it, or as many as it holds, and the turn
  passes to that player: the player who drew is the next to move.
\<close>

theorem draw_two_next_player_draws:
  assumes "games code = Some game" and "gameState game = Some state"
    and "py_index (players game) (currentPlayerIndex state) = Some i"
    and "player_id (players game ! i) = pid"
    and "find (\<lambda>c. card_id c = cid) (hand (players game ! i)) = Some c"
    and "card_value c = ''draw2''"
    and "remove1 c (hand (players game ! i)) \<noteq> []"
    and "2 \<le> length (players game)"
    and "direction state = 1 \<or> direction state = - 1"
  shows "\<exists>game' state' j d1.
     handle_play_card games code pid cid chosen =
       (Broadcast game_update, games(code \<mapsto> game')) \<and>
     gameState game' = Some state' \<and>
     j = nat (get_next_player_index (players game) state) \<and>
     j < length (players game) \<and> j \<noteq> i \<and>
     d1 = (if length (remove1 c (hand (players game ! i))) = 1 \<and> \<not> calledUno (players game ! i)
           then take (length (deck state) - 2) (deck state) else deck state) \<and>
     hand (players game' ! j) = hand (players game ! j) @ take 2 (rev d1) \<and>
     length (hand (players game' ! j)) = length (hand (players game ! j)) + min 2 (length d1) \<and>
     deck state' = take (length d1 - 2) d1 \<and>
     currentPlayerIndex state' = int j \<and> direction state' = direction state"
proof -
  from assms(3) have i: "i < length (players game)" by (rule py_index_Some)
  then have nonempty: "players game \<noteq> []" by auto
  define j where "j = nat (get_next_player_index (players game) state)"
  define d1 where "d1 = (if length (remove1 c (hand (players game ! i))) = 1 \<and> \<not> calledUno (players game ! i)
           then take (length (deck state) - 2) (deck state) else deck state)"
  have j: "j < length (players game)" unfolding j_def using nonempty by (rule next_index_in_range)
  have ji: "j \<noteq> i" unfolding j_def using assms(3,8,9) by (rule next_index_other)
  have jn: "int j = get_next_player_index (players game) state"
    unfolding j_def using next_index_nonneg [OF nonempty, of state] by simp
  obtain ps2 state2 where ap: "after_penalty i c chosen (players game, state) = (ps2, state2)"
    by (cases "after_penalty i c chosen (players game, state)")
  from after_penalty_facts [where c = c and chosen = chosen and state = state, OF i]
    after_penalty_other [of j i c chosen "players game" state] ap ji
  have l2: "length ps2 = length (players game)"
    and cp: "currentPlayerIndex state2 = currentPlayerIndex state"
    and dr: "direction state2 = direction state"
    and nx: "get_next_player_index ps2 state2 = get_next_player_index (players game) state"
    and pj: "ps2 ! j = players game ! j"
    and dk: "deck state2 = d1"
    by (simp_all add: d1_def)
  define ps3 where "ps3 = ps2[j := (ps2 ! j)\<lparr>hand := hand (ps2 ! j) @ take 2 (rev d1)\<rparr>]"
  define state3 where "state3 = state2\<lparr>deck := take (length d1 - 2) d1\<rparr>"
  have eff: "card_effect c (ps2, state2) = (ps3, state3)"
    using card_effect_draw2 [OF assms(6), of ps2 state2] nx dk
    by (simp add: ps3_def state3_def j_def)
  have l3: "length ps3 = length (players game)" by (simp add: ps3_def l2)
  have nx3: "get_next_player_index ps3 state3 = int j"
    using nx jn by (simp add: get_next_player_index_def ps3_def state3_def l2 cp dr)
  have hj: "hand (ps3 ! j) = hand (players game ! j) @ take 2 (rev d1)"
    using j l2 pj by (simp add: ps3_def)
  then have lj: "length (hand (ps3 ! j)) = length (hand (players game ! j)) + min 2 (length d1)"
    by simp
  have "resolve_play i c chosen (players game, state) =
      (Broadcast game_update, ps3, state3\<lparr>currentPlayerIndex := int j, hasDrawn := False\<rparr>)"
    using resolve_play_steps [OF i assms(7), of chosen state] ap eff nx3
    by (simp add: advance_turn_def)
  then have "handle_play_card games code pid cid chosen =
       (Broadcast game_update, games(code \<mapsto> game\<lparr>players := ps3, gameState := Some
         (state3\<lparr>currentPlayerIndex := int j, hasDrawn := False\<rparr>)\<rparr>))"
    unfolding play_card_accepted [where games = games and code = code, OF assms(1-5)] by simp
  moreover have "deck (state3\<lparr>currentPlayerIndex := int j, hasDrawn := False\<rparr>) = take (length d1 - 2) d1"
    and "direction (state3\<lparr>currentPlayerIndex := int j, hasDrawn := False\<rparr>) = direction state"
    by (simp_all add: state3_def dr)
  ultimately show ?thesis using j ji hj lj
    unfolding j_def [symmetric] d1_def [symmetric] by auto
qed

theorem draw_two_next_player_draws_witness:
  "find (\<lambda>c. card_id c = ''red-draw2-1'') (hand (players (ex_game 0 ex_deck) ! 0)) =
     Some (ex_card ''red'' ''draw2'') \<and>
   2 \<le> length (players (ex_game 0 ex_deck)) \<and> direction (ex_state 0 ex_deck) = 1 \<and>
   (\<exists>game' state'.
     handle_play_card (ex_table 0 ex_deck) ''ABCD'' ''p1'' ''red-draw2-1'' None =
       (Broadcast game_update, (ex_table 0 ex_deck)(''ABCD'' \<mapsto> game')) \<and>
     gameState game' = Some state' \<and>
     hand (players game' ! 1) =
       hand (ex_players ! 1) @ [ex_card ''green'' ''4'', ex_card ''red'' ''9''] \<and>
     length (hand (players game' ! 1)) = length (hand (ex_players ! 1)) + 2 \<and>
     deck state' = [ex_card ''yellow'' ''1'', ex_card ''yellow'' ''2''] \<and>
     currentPlayerIndex state' = 1 \<and> direction state' = 1)"
proof -
  have ix: "py_index (players (ex_game 0 ex_deck)) (currentPlayerIndex (ex_state 0 ex_deck)) = Some 0"
    by (simp add: ex_table_facts ex_players_def py_index_def)
  have p: "player_id (players (ex_game 0 ex_deck) ! 0) = ''p1''"
    by (simp add: ex_table_facts ex_players_def py_index_def)
  have f: "find (\<lambda>c. card_id c = ''red-draw2-1'') (hand (players (ex_game 0 ex_deck) ! 0)) =
     Some (ex_card ''red'' ''draw2'')"
    by (simp add: ex_table_facts ex_players_def ex_card_def)
  have v: "card_value (ex_card ''red'' ''draw2'') = ''draw2''" by (simp add: ex_card_def)
  have r: "remove1 (ex_card ''red'' ''draw2'') (hand (players (ex_game 0 ex_deck) ! 0)) \<noteq> []"
    by (simp add: ex_table_facts ex_players_def ex_card_def)
  have n: "2 \<le> length (players (ex_game 0 ex_deck))"
    by (simp add: ex_table_facts ex_players_def py_index_def)
  have d: "direction (ex_state 0 ex_deck) = 1 \<or> direction (ex_state 0 ex_deck) = - 1"
    by (simp add: ex_table_facts)
  from draw_two_next_player_draws [where games = "ex_table 0 ex_deck" and code = "''ABCD''"
      and chosen = None, OF ex_table_facts(1) ex_table_facts(2) ix p f v r n d]
  obtain game' state' j d1 where
    "handle_play_card (ex_table 0 ex_deck) ''ABCD'' ''p1'' ''red-draw2-1'' None =
       (Broadcast game_update, (ex_table 0 ex_deck)(''ABCD'' \<mapsto> game'))"
    "gameState game' = Some state'"
    "j = nat (get_next_player_index (players (ex_game 0 ex_deck)) (ex_state 0 ex_deck))"
    "d1 = (if length (remove1 (ex_card ''red'' ''draw2'') (hand (players (ex_game 0 ex_deck) ! 0))) = 1 \<and>
              \<not> calledUno (players (ex_game 0 ex_deck) ! 0)
           then take (length (deck (ex_state 0 ex_deck)) - 2) (deck (ex_state 0 ex_deck))
           else deck (ex_state 0 ex_deck))"
    "hand (players game' ! j) = hand (players (ex_game 0 ex_deck) ! j) @ take 2 (rev d1)"
    "deck state' = take (length d1 - 2) d1"
    "currentPlayerIndex state' = int j" "direction state' = direction (ex_state 0 ex_deck)"
    by blast
  moreover have "nat (get_next_player_index (players (ex_game 0 ex_deck)) (ex_state 0 ex_deck)) = 1"
    by (simp add: get_next_player_index_def ex_table_facts ex_players_def)
  moreover have "(if length (remove1 (ex_card ''red'' ''draw2'') (hand (players (ex_game 0 ex_deck) ! 0))) = 1 \<and>
              \<not> calledUno (players (ex_game 0 ex_deck) ! 0)
           then take (length (deck (ex_state 0 ex_deck)) - 2) (deck (ex_state 0 ex_deck))
           else deck (ex_state 0 ex_deck)) = ex_deck"
    by (simp add: ex_table_facts ex_players_def ex_card_def)
  ultimately have res: "handle_play_card (ex_table 0 ex_deck) ''ABCD'' ''p1'' ''red-draw2-1'' None =
       (Broadcast game_update, (ex_table 0 ex_deck)(''ABCD'' \<mapsto> game'))"
    and st: "gameState game' = Some state'"
    and h: "hand (players game' ! 1) = hand (players (ex_game 0 ex_deck) ! 1) @ take 2 (rev ex_deck)"
    and dk: "deck state' = take (length ex_deck - 2) ex_deck"
    and cp: "currentPlayerIndex state' = int 1" and dr: "direction state' = direction (ex_state 0 ex_deck)"
    by simp_all
  from h have h': "hand (players game' ! 1) =
       hand (ex_players ! 1) @ [ex_card ''green'' ''4'', ex_card ''red'' ''9'']"
    by (simp add: ex_table_facts ex_deck_def)
  then have l': "length (hand (players game' ! 1)) = length (hand (ex_players ! 1)) + 2" by simp
  from dk have dk': "deck state' = [ex_card ''yellow'' ''1'', ex_card ''yellow'' ''2'']"
    by (simp add: ex_deck_def)
  from cp have cp': "currentPlayerIndex state' = 1" by simp
  from dr have dr': "direction state' = 1" by (simp add: ex_table_facts)
  from d have d': "direction (ex_state 0 ex_deck) = 1" by (simp add: ex_table_facts)
  from f n d' res st h' l' dk' cp' dr' show ?thesis by blast
qed

text \<open>
  Ann (position 0 of four) plays a draw2: Bob at position 1 draws two cards, and the
  turn is at position 1, not at position 2.
\<close>

theorem draw_two_turn_counterexample:
  "table_view (ex_table 0 ex_deck) ''ABCD'' = Some ([3, 2, 1, 2], 4, 3, 0) \<and>
   fst (handle_play_card (ex_table 0 ex_deck) ''ABCD'' ''p1'' ''red-draw2-1'' None) =
     Broadcast game_update \<and>
   table_view (snd (handle_play_card (ex_table 0 ex_deck) ''ABCD'' ''p1'' ''red-draw2-1'' None))
     ''ABCD'' = Some ([2, 4, 1, 2], 2, 4, 1) \<and>
   table_view (snd (handle_play_card (ex_table 0 ex_deck) ''ABCD'' ''p1'' ''red-draw2-1'' None))
     ''ABCD'' \<noteq> Some ([2, 4, 1, 2], 2, 4, 2)"
  by (simp add: ex_defs play_defs table_view_def)

text \<open>
  C4. A play by a player who is not the one to move, or for a card id that is not in the
  hand of the player to move, returns without a broadcast and leaves the registry, and so
  every field of the match, as it was.
\<close>

theorem rejected_play_changes_nothing:
  assumes "games code = Some game" and "gameState game = Some state"
    and "py_index (players game) (currentPlayerIndex state) = Some i"
    and "player_id (players game ! i) \<noteq> pid \<or>
         cid \<notin> card_id ` set (hand (players game ! i))"
  shows "handle_play_card games code pid cid chosen = (Returned, games)"
proof (cases "player_id (players game ! i) = pid")
  case False
  with assms(1-3) show ?thesis by (simp add: handle_play_card_def)
next
  case True
  with assms(4) have "cid \<notin> card_id ` set (hand (players game ! i))" by simp
  then have "find (\<lambda>c. card_id c = cid) (hand (players game ! i)) = None"
    by (auto simp: find_None_iff)
  with assms(1-3) show ?thesis by (simp add: handle_play_card_def)
qed

theorem rejected_play_changes_nothing_witness:
  "ex_table 0 ex_deck ''ABCD'' = Some (ex_game 0 ex_deck) \<and>
   player_id (players (ex_game 0 ex_deck) ! 0) \<noteq> ''p2'' \<and>
   handle_play_card (ex_table 0 ex_deck) ''ABCD'' ''p2'' ''red-3-1'' None =
     (Returned, ex_table 0 ex_deck) \<and>
   ''green-0-1'' \<notin> card_id ` set (hand (players (ex_game 0 ex_deck) ! 0)) \<and>
   handle_play_card (ex_table 0 ex_deck) ''ABCD'' ''p1'' ''green-0-1'' None =
     (Returned, ex_table 0 ex_deck)"
proof -
  have a: "player_id (players (ex_game 0 ex_deck) ! 0) \<noteq> ''p2''"
    by (simp add: ex_table_facts ex_players_def py_index_def)
  have b: "''green-0-1'' \<notin> card_id ` set (hand (players (ex_game 0 ex_deck) ! 0))"
    by (simp add: ex_table_facts ex_players_def ex_card_def)
  have ix: "py_index (players (ex_game 0 ex_deck)) (currentPlayerIndex (ex_state 0 ex_deck)) = Some 0"
    by (simp add: ex_table_facts ex_players_def py_index_def)
  from rejected_play_changes_nothing [where games = "ex_table 0 ex_deck" and code = "''ABCD''"
      and pid = "''p2''" and cid = "''red-3-1''" and chosen = None,
      OF ex_table_facts(1) ex_table_facts(2) ix disjI1 [OF a]]
    rejected_play_changes_nothing [where games = "ex_table 0 ex_deck" and code = "''ABCD''"
      and pid = "''p1''" and cid = "''green-0-1''" and chosen = None,
      OF ex_table_facts(1) ex_table_facts(2) ix disjI2 [OF b]]
    a b
  show ?thesis by (simp add: ex_table_facts)
qed



text \<open>
  C6. A draw by the player to move, with the draw pile empty and more than one card on
  the discard pile: the discard pile keeps its top card only, the other cards are
  shuffled into the draw pile, the card drawn is the top of that pile, and the cards of
  the match are the same as before.
\<close>

theorem draw_recycles_discard:
  assumes "is_shuffle shuffle"
    and "games code = Some game" and "gameState game = Some state"
    and "py_index (players game) (currentPlayerIndex state) = Some i"
    and "player_id (players game ! i) = pid"
    and "deck state = []" and "1 < length (discardPile state)"
  shows "\<exists>game' state' drawn.
     handle_draw shuffle games code pid = (Broadcast game_update, games(code \<mapsto> game')) \<and>
     gameState game' = Some state' \<and>
     discardPile state' = [last (discardPile state)] \<and>
     deck state' @ [drawn] = shuffle (butlast (discardPile state)) \<and>
     mset (deck state') + {#drawn#} = mset (butlast (discardPile state)) \<and>
     players game' =
       (players game)[i := (players game ! i)\<lparr>hand := hand (players game ! i) @ [drawn]\<rparr>] \<and>
     hasDrawn state' \<and> currentPlayerIndex state' = currentPlayerIndex state \<and>
     mset (all_cards game') = mset (all_cards game) \<and>
     card_total game' = card_total game"
proof -
  define pile where "pile = shuffle (butlast (discardPile state))"
  define state1 where "state1 = state\<lparr>deck := pile, discardPile := [last (discardPile state)]\<rparr>"
  define game' where "game' = game
        \<lparr>players := (players game)
           [i := (players game ! i)\<lparr>hand := hand (players game ! i) @ [last pile]\<rparr>],
         gameState := Some (state1\<lparr>deck := butlast pile, hasDrawn := True\<rparr>)\<rparr>"
  from assms(7) have dne: "discardPile state \<noteq> []" by auto
  have "length pile = length (discardPile state) - 1"
    using assms(1) by (simp add: pile_def shuffle_length)
  with assms(7) have pne: "pile \<noteq> []" by auto
  have rc: "recycle shuffle state = Some state1"
    using assms(6) dne by (simp add: recycle_def state1_def pile_def)
  have res: "handle_draw shuffle games code pid = (Broadcast game_update, games(code \<mapsto> game'))"
    using assms(2-5) rc pne by (simp add: handle_draw_def game'_def state1_def)
  have m: "mset pile = mset (butlast (discardPile state))"
    using assms(1) by (simp add: pile_def is_shuffle_def)
  from cards_view_draw [OF assms(1), of games code pid code] res assms(2)
  have mm: "mset (all_cards game') = mset (all_cards game)" by (simp add: cards_view_def)
  then have "length (all_cards game') = length (all_cards game)" by (rule mset_eq_length)
  then have ct: "card_total game' = card_total game" by (simp add: card_total_length)
  have "gameState game' = Some (state1\<lparr>deck := butlast pile, hasDrawn := True\<rparr>)"
    by (simp add: game'_def)
  moreover have "discardPile (state1\<lparr>deck := butlast pile, hasDrawn := True\<rparr>) = [last (discardPile state)]"
    "deck (state1\<lparr>deck := butlast pile, hasDrawn := True\<rparr>) @ [last pile] = pile"
    "hasDrawn (state1\<lparr>deck := butlast pile, hasDrawn := True\<rparr>)"
    "currentPlayerIndex (state1\<lparr>deck := butlast pile, hasDrawn := True\<rparr>) = currentPlayerIndex state"
    using pne by (simp_all add: state1_def)
  moreover have "mset (butlast pile) + {#last pile#} = mset (butlast (discardPile state))"
    using mset_butlast_last [OF pne] m by simp
  moreover have "players game' =
       (players game)[i := (players game ! i)\<lparr>hand := hand (players game ! i) @ [last pile]\<rparr>]"
    by (simp add: game'_def)
  ultimately show ?thesis using res mm ct
    unfolding pile_def [symmetric]
    by (intro exI [of _ game'] exI [of _ "state1\<lparr>deck := butlast pile, hasDrawn := True\<rparr>"]
          exI [of _ "last pile"]) simp
qed

theorem draw_recycles_discard_witness:
  "is_shuffle rev \<and> deck (ex_state 0 []) = [] \<and> 1 < length (discardPile (ex_state 0 [])) \<and>
   (\<exists>game' state' drawn.
     handle_draw rev (ex_table 0 []) ''ABCD'' ''p1'' =
       (Broadcast game_update, (ex_table 0 [])(''ABCD'' \<mapsto> game')) \<and>
     gameState game' = Some state' \<and>
     discardPile state' = [ex_card ''red'' ''1''] \<and>
     deck state' @ [drawn] = [ex_card ''red'' ''2'', ex_card ''blue'' ''2''] \<and>
     hand (players game' ! 0) = hand (ex_players ! 0) @ [drawn] \<and>
     hasDrawn state' \<and> currentPlayerIndex state' = 0 \<and>
     card_total game' = card_total (ex_game 0 []))"
proof -
  have ix: "py_index (players (ex_game 0 [])) (currentPlayerIndex (ex_state 0 [])) = Some 0"
    by (simp add: ex_table_facts ex_players_def py_index_def)
  have p: "player_id (players (ex_game 0 []) ! 0) = ''p1''"
    by (simp add: ex_table_facts ex_players_def py_index_def)
  have d: "deck (ex_state 0 []) = []" by (simp add: ex_table_facts)
  have n: "1 < length (discardPile (ex_state 0 []))"
    by (simp add: ex_table_facts ex_discard_def)
  from draw_recycles_discard [where games = "ex_table 0 []" and code = "''ABCD''",
      OF is_shuffle_rev ex_table_facts(1) ex_table_facts(2) ix p d n]
  obtain game' state' drawn where
    res: "handle_draw rev (ex_table 0 []) ''ABCD'' ''p1'' =
       (Broadcast game_update, (ex_table 0 [])(''ABCD'' \<mapsto> game'))"
    and st: "gameState game' = Some state'"
    and dp: "discardPile state' = [last (discardPile (ex_state 0 []))]"
    and dk: "deck state' @ [drawn] = rev (butlast (discardPile (ex_state 0 [])))"
    and pl: "players game' = (players (ex_game 0 []))
         [0 := (players (ex_game 0 []) ! 0)\<lparr>hand := hand (players (ex_game 0 []) ! 0) @ [drawn]\<rparr>]"
    and hd: "hasDrawn state'"
    and cp: "currentPlayerIndex state' = currentPlayerIndex (ex_state 0 [])"
    and ct: "card_total game' = card_total (ex_game 0 [])"
    by blast
  from dp have dp': "discardPile state' = [ex_card ''red'' ''1'']"
    by (simp add: ex_table_facts ex_discard_def)
  from dk have dk': "deck state' @ [drawn] = [ex_card ''red'' ''2'', ex_card ''blue'' ''2'']"
    by (simp add: ex_table_facts ex_discard_def)
  from pl have pl': "hand (players game' ! 0) = hand (ex_players ! 0) @ [drawn]"
    by (simp add: ex_table_facts ex_players_def)
  from cp have cp': "currentPlayerIndex state' = 0" by (simp add: ex_table_facts)
  from is_shuffle_rev d n res st dp' dk' pl' hd cp' ct show ?thesis by blast
qed

text \<open>
  C7, as the code has it. A play that leaves the player with one card, without a
  declaration before, gives that player at once the two top cards of the draw pile, or
  as many as it holds: after the penalty the hand has grown from 1 to
  1 + min 2 (size of the draw pile) and the flag is cleared. The effect of the card and
  the advance of the turn are then applied to that state; they leave the flag cleared,
  and they leave the hand as it is unless the card is a draw2 and the player is the next
  player too (as in a match of one player), who then draws the next two cards as well.
\<close>

theorem undeclared_last_card_penalty:
  assumes "games code = Some game" and "gameState game = Some state"
    and "py_index (players game) (currentPlayerIndex state) = Some i"
    and "player_id (players game ! i) = pid"
    and "find (\<lambda>c. card_id c = cid) (hand (players game ! i)) = Some c"
    and "length (hand (players game ! i)) = 2"
    and "\<not> calledUno (players game ! i)"
  shows "\<exists>ps2 state2 game' state'.
     penalty i
       ((players game)[i := (players game ! i)\<lparr>hand := remove1 c (hand (players game ! i))\<rparr>],
        state\<lparr>discardPile := discardPile state @ [c],
              currentColor := (if color c = ''wild'' then chosen else Some (color c)),
              currentValue := card_value c\<rparr>) = (ps2, state2) \<and>
     hand (ps2 ! i) = remove1 c (hand (players game ! i)) @ take 2 (rev (deck state)) \<and>
     length (hand (ps2 ! i)) = 1 + min 2 (length (deck state)) \<and>
     \<not> calledUno (ps2 ! i) \<and>
     deck state2 = take (length (deck state) - 2) (deck state) \<and>
     currentPlayerIndex state2 = currentPlayerIndex state \<and>
     direction state2 = direction state \<and>
     advance_turn (card_effect c (ps2, state2)) = (players game', state') \<and>
     gameState game' = Some state' \<and>
     handle_play_card games code pid cid chosen =
       (Broadcast game_update, games(code \<mapsto> game')) \<and>
     hand (players game' ! i) =
       hand (ps2 ! i) @
       (if card_value c = ''draw2'' \<and> nat (get_next_player_index (players game) state) = i
        then take 2 (rev (deck state2)) else []) \<and>
     \<not> calledUno (players game' ! i)"
proof -
  from assms(3) have i: "i < length (players game)" by (rule py_index_Some)
  then have nonempty: "players game \<noteq> []" by auto
  from assms(5) have "c \<in> set (hand (players game ! i))" by (rule find_Some_set)
  with assms(6) have l1: "length (remove1 c (hand (players game ! i))) = 1"
    by (simp add: length_remove1)
  then have ne: "remove1 c (hand (players game ! i)) \<noteq> []" by auto
  obtain ps2 state2 where ap: "after_penalty i c chosen (players game, state) = (ps2, state2)"
    by (cases "after_penalty i c chosen (players game, state)")
  have pen: "penalty i
       ((players game)[i := (players game ! i)\<lparr>hand := remove1 c (hand (players game ! i))\<rparr>],
        state\<lparr>discardPile := discardPile state @ [c],
              currentColor := (if color c = ''wild'' then chosen else Some (color c)),
              currentValue := card_value c\<rparr>) = (ps2, state2)"
    using penalty_after_removal [where c = c and state = state and chosen = chosen, OF i] ap by simp
  from after_penalty_facts [where c = c and chosen = chosen and state = state, OF i] ap l1 assms(7)
  have l2: "length ps2 = length (players game)"
    and cp: "currentPlayerIndex state2 = currentPlayerIndex state"
    and dr: "direction state2 = direction state"
    and nx: "get_next_player_index ps2 state2 = get_next_player_index (players game) state"
    and c2: "\<not> calledUno (ps2 ! i)"
    and h2: "hand (ps2 ! i) = remove1 c (hand (players game ! i)) @ take 2 (rev (deck state))"
    and d2: "deck state2 = take (length (deck state) - 2) (deck state)"
    by simp_all
  from h2 l1 have len: "length (hand (ps2 ! i)) = 1 + min 2 (length (deck state))" by simp
  from l2 nonempty have ne2: "ps2 \<noteq> []" by auto
  from l2 i have i2: "i < length ps2" by simp
  obtain ps3 state3 where eff: "card_effect c (ps2, state2) = (ps3, state3)"
    by (cases "card_effect c (ps2, state2)")
  have h3: "hand (ps3 ! i) = hand (ps2 ! i) @
       (if card_value c = ''draw2'' \<and> nat (get_next_player_index (players game) state) = i
        then take 2 (rev (deck state2)) else [])"
  proof (cases "card_value c = ''draw2''")
    case False
    with card_effect_other(1) [OF False, of ps2 state2] eff show ?thesis by simp
  next
    case True
    from card_effect_draw2 [OF True, of ps2 state2] eff nx i2 True show ?thesis
      by (auto simp: nth_list_update)
  qed
  from map_calledUno_card_effect(1) [OF ne2, of c state2] eff
  have m3: "map calledUno ps3 = map calledUno ps2" by simp
  then have "length ps3 = length ps2" by (metis length_map)
  with m3 i2 have "calledUno (ps3 ! i) = calledUno (ps2 ! i)" by (metis nth_map)
  with c2 have c3: "\<not> calledUno (ps3 ! i)" by simp
  define state4 where
    "state4 = state3\<lparr>currentPlayerIndex := get_next_player_index ps3 state3, hasDrawn := False\<rparr>"
  define game' where "game' = game\<lparr>players := ps3, gameState := Some state4\<rparr>"
  have adv: "advance_turn (card_effect c (ps2, state2)) = (players game', state4)"
    using eff by (simp add: advance_turn_def state4_def game'_def)
  have "resolve_play i c chosen (players game, state) = (Broadcast game_update, ps3, state4)"
    using resolve_play_steps [OF i ne, of chosen state] ap eff
    by (simp add: advance_turn_def state4_def)
  then have res: "handle_play_card games code pid cid chosen =
       (Broadcast game_update, games(code \<mapsto> game'))"
    unfolding play_card_accepted [where games = games and code = code, OF assms(1-5)]
    by (simp add: game'_def)
  have gs: "gameState game' = Some state4" and pl: "players game' = ps3"
    by (simp_all add: game'_def)
  from pen h2 len c2 d2 cp dr adv gs res h3 c3 show ?thesis
    unfolding pl [symmetric] by blast
qed

theorem undeclared_last_card_penalty_witness:
  "length (hand (players (ex_game 1 ex_deck) ! 1)) = 2 \<and>
   \<not> calledUno (players (ex_game 1 ex_deck) ! 1) \<and>
   find (\<lambda>c. card_id c = ''red-3-1'') (hand (players (ex_game 1 ex_deck) ! 1)) =
     Some (ex_card ''red'' ''3'') \<and>
   (\<exists>game' state'.
     handle_play_card (ex_table 1 ex_deck) ''ABCD'' ''p2'' ''red-3-1'' None =
       (Broadcast game_update, (ex_table 1 ex_deck)(''ABCD'' \<mapsto> game')) \<and>
     gameState game' = Some state' \<and>
     hand (players game' ! 1) =
       [ex_card ''yellow'' ''skip'', ex_card ''green'' ''4'', ex_card ''red'' ''9''] \<and>
     length (hand (players game' ! 1)) = 3 \<and>
     \<not> calledUno (players game' ! 1)) \<and>
   length (hand (players ex_solo_game ! 0)) = 2 \<and>
   \<not> calledUno (players ex_solo_game ! 0) \<and>
   find (\<lambda>c. card_id c = ''red-draw2-1'') (hand (players ex_solo_game ! 0)) =
     Some (ex_card ''red'' ''draw2'') \<and>
   (\<exists>ps2 state2 game' state'.
     penalty 0
       ((players ex_solo_game)[0 := (players ex_solo_game ! 0)\<lparr>hand := [ex_card ''blue'' ''5'']\<rparr>],
        ex_solo_state\<lparr>discardPile := ex_discard @ [ex_card ''red'' ''draw2''],
              currentColor := Some ''red'', currentValue := ''draw2''\<rparr>) = (ps2, state2) \<and>
     hand (ps2 ! 0) = [ex_card ''blue'' ''5'', ex_card ''green'' ''4'', ex_card ''red'' ''9''] \<and>
     \<not> calledUno (ps2 ! 0) \<and>
     handle_play_card ex_solo ''SOLO'' ''p1'' ''red-draw2-1'' None =
       (Broadcast game_update, ex_solo(''SOLO'' \<mapsto> game')) \<and>
     gameState game' = Some state' \<and>
     hand (players game' ! 0) =
       [ex_card ''blue'' ''5'', ex_card ''green'' ''4'', ex_card ''red'' ''9'',
        ex_card ''yellow'' ''2'', ex_card ''yellow'' ''1''] \<and>
     \<not> calledUno (players game' ! 0))"
proof -
  have ix: "py_index (players (ex_game 1 ex_deck)) (currentPlayerIndex (ex_state 1 ex_deck)) = Some 1"
    by (simp add: ex_table_facts ex_players_def py_index_def)
  have p: "player_id (players (ex_game 1 ex_deck) ! 1) = ''p2''"
    by (simp add: ex_table_facts ex_players_def py_index_def)
  have f: "find (\<lambda>c. card_id c = ''red-3-1'') (hand (players (ex_game 1 ex_deck) ! 1)) =
     Some (ex_card ''red'' ''3'')"
    by (simp add: ex_table_facts ex_players_def ex_card_def)
  have l: "length (hand (players (ex_game 1 ex_deck) ! 1)) = 2"
    and u: "\<not> calledUno (players (ex_game 1 ex_deck) ! 1)"
    by (simp_all add: ex_table_facts ex_players_def)
  from undeclared_last_card_penalty [where games = "ex_table 1 ex_deck" and code = "''ABCD''"
      and chosen = None, OF ex_table_facts(1) ex_table_facts(2) ix p f l u]
  obtain ps2 :: "player list" and state2 :: game_state and game' state' where
    res: "handle_play_card (ex_table 1 ex_deck) ''ABCD'' ''p2'' ''red-3-1'' None =
       (Broadcast game_update, (ex_table 1 ex_deck)(''ABCD'' \<mapsto> game'))"
    and st: "gameState game' = Some state'"
    and h2: "hand (ps2 ! 1) =
       remove1 (ex_card ''red'' ''3'') (hand (players (ex_game 1 ex_deck) ! 1)) @
       take 2 (rev (deck (ex_state 1 ex_deck)))"
    and h: "hand (players game' ! 1) = hand (ps2 ! 1) @
       (if card_value (ex_card ''red'' ''3'') = ''draw2'' \<and>
           nat (get_next_player_index (players (ex_game 1 ex_deck)) (ex_state 1 ex_deck)) = 1
        then take 2 (rev (deck state2)) else [])"
    and c: "\<not> calledUno (players game' ! 1)"
    by blast
  from h h2 have h': "hand (players game' ! 1) =
       [ex_card ''yellow'' ''skip'', ex_card ''green'' ''4'', ex_card ''red'' ''9'']"
    by (simp add: ex_table_facts ex_players_def ex_card_def ex_deck_def)
  then have l': "length (hand (players game' ! 1)) = 3" by simp
  have A: "\<exists>game' state'.
     handle_play_card (ex_table 1 ex_deck) ''ABCD'' ''p2'' ''red-3-1'' None =
       (Broadcast game_update, (ex_table 1 ex_deck)(''ABCD'' \<mapsto> game')) \<and>
     gameState game' = Some state' \<and>
     hand (players game' ! 1) =
       [ex_card ''yellow'' ''skip'', ex_card ''green'' ''4'', ex_card ''red'' ''9''] \<and>
     length (hand (players game' ! 1)) = 3 \<and>
     \<not> calledUno (players game' ! 1)"
    using res st h' l' c by blast
  have sg: "ex_solo ''SOLO'' = Some ex_solo_game" by (simp add: ex_solo_def)
  have ss: "gameState ex_solo_game = Some ex_solo_state" by (simp add: ex_solo_game_def)
  have six: "py_index (players ex_solo_game) (currentPlayerIndex ex_solo_state) = Some 0"
    by (simp add: ex_solo_game_def ex_solo_state_def py_index_def)
  have sp: "player_id (players ex_solo_game ! 0) = ''p1''" by (simp add: ex_solo_game_def)
  have sf: "find (\<lambda>c. card_id c = ''red-draw2-1'') (hand (players ex_solo_game ! 0)) =
     Some (ex_card ''red'' ''draw2'')"
    by (simp add: ex_solo_game_def ex_card_def)
  have sl: "length (hand (players ex_solo_game ! 0)) = 2"
    and su: "\<not> calledUno (players ex_solo_game ! 0)"
    by (simp_all add: ex_solo_game_def)
  from undeclared_last_card_penalty [where games = ex_solo and code = "''SOLO''"
      and chosen = None, OF sg ss six sp sf sl su]
  obtain qs2 :: "player list" and qstate2 :: game_state and sgame' sstate' where
    pen: "penalty 0
       ((players ex_solo_game)[0 := (players ex_solo_game ! 0)
           \<lparr>hand := remove1 (ex_card ''red'' ''draw2'') (hand (players ex_solo_game ! 0))\<rparr>],
        ex_solo_state\<lparr>discardPile := discardPile ex_solo_state @ [ex_card ''red'' ''draw2''],
              currentColor := (if color (ex_card ''red'' ''draw2'') = ''wild'' then None
                               else Some (color (ex_card ''red'' ''draw2''))),
              currentValue := card_value (ex_card ''red'' ''draw2'')\<rparr>) = (qs2, qstate2)"
    and q2: "hand (qs2 ! 0) =
       remove1 (ex_card ''red'' ''draw2'') (hand (players ex_solo_game ! 0)) @
       take 2 (rev (deck ex_solo_state))"
    and qc2: "\<not> calledUno (qs2 ! 0)"
    and qd: "deck qstate2 = take (length (deck ex_solo_state) - 2) (deck ex_solo_state)"
    and sres: "handle_play_card ex_solo ''SOLO'' ''p1'' ''red-draw2-1'' None =
       (Broadcast game_update, ex_solo(''SOLO'' \<mapsto> sgame'))"
    and sst: "gameState sgame' = Some sstate'"
    and sh: "hand (players sgame' ! 0) = hand (qs2 ! 0) @
       (if card_value (ex_card ''red'' ''draw2'') = ''draw2'' \<and>
           nat (get_next_player_index (players ex_solo_game) ex_solo_state) = 0
        then take 2 (rev (deck qstate2)) else [])"
    and sc: "\<not> calledUno (players sgame' ! 0)"
    by blast
  from pen have pen': "penalty 0
       ((players ex_solo_game)[0 := (players ex_solo_game ! 0)\<lparr>hand := [ex_card ''blue'' ''5'']\<rparr>],
        ex_solo_state\<lparr>discardPile := ex_discard @ [ex_card ''red'' ''draw2''],
              currentColor := Some ''red'', currentValue := ''draw2''\<rparr>) = (qs2, qstate2)"
    by (simp add: ex_solo_game_def ex_solo_state_def ex_card_def)
  from q2 have q2': "hand (qs2 ! 0) =
       [ex_card ''blue'' ''5'', ex_card ''green'' ''4'', ex_card ''red'' ''9'']"
    by (simp add: ex_solo_game_def ex_solo_state_def ex_card_def ex_deck_def)
  from sh q2' qd have sh': "hand (players sgame' ! 0) =
       [ex_card ''blue'' ''5'', ex_card ''green'' ''4'', ex_card ''red'' ''9'',
        ex_card ''yellow'' ''2'', ex_card ''yellow'' ''1'']"
    by (simp add: ex_solo_game_def ex_solo_state_def ex_card_def ex_deck_def
        get_next_player_index_def)
  have B: "\<exists>ps2 state2 game' state'.
     penalty 0
       ((players ex_solo_game)[0 := (players ex_solo_game ! 0)\<lparr>hand := [ex_card ''blue'' ''5'']\<rparr>],
        ex_solo_state\<lparr>discardPile := ex_discard @ [ex_card ''red'' ''draw2''],
              currentColor := Some ''red'', currentValue := ''draw2''\<rparr>) = (ps2, state2) \<and>
     hand (ps2 ! 0) = [ex_card ''blue'' ''5'', ex_card ''green'' ''4'', ex_card ''red'' ''9''] \<and>
     \<not> calledUno (ps2 ! 0) \<and>
     handle_play_card ex_solo ''SOLO'' ''p1'' ''red-draw2-1'' None =
       (Broadcast game_update, ex_solo(''SOLO'' \<mapsto> game')) \<and>
     gameState game' = Some state' \<and>
     hand (players game' ! 0) =
       [ex_card ''blue'' ''5'', ex_card ''green'' ''4'', ex_card ''red'' ''9'',
        ex_card ''yellow'' ''2'', ex_card ''yellow'' ''1''] \<and>
     \<not> calledUno (players game' ! 0)"
    using pen' q2' qc2 sres sst sh' sc by blast
  from l u f A sl su sf B show ?thesis by (intro conjI)
qed

text \<open>
  With the draw pile empty, Bob plays one of two cards without a declaration: the play
  is served and Bob holds one card, not three.
\<close>

theorem penalty_counterexample:
  "table_view (ex_table 1 []) ''ABCD'' = Some ([3, 2, 1, 2], 0, 3, 1) \<and>
   fst (handle_play_card (ex_table 1 []) ''ABCD'' ''p2'' ''red-3-1'' None) =
     Broadcast game_update \<and>
   table_view (snd (handle_play_card (ex_table 1 []) ''ABCD'' ''p2'' ''red-3-1'' None)) ''ABCD'' =
     Some ([3, 1, 1, 2], 0, 4, 2) \<and>
   map_option (\<lambda>g. length (hand (players g ! 1)))
     (snd (handle_play_card (ex_table 1 []) ''ABCD'' ''p2'' ''red-3-1'' None) ''ABCD'') \<noteq> Some 3"
  by (simp add: ex_defs play_defs table_view_def)

text \<open>
  C8, as the code has it. \<open>call_uno\<close> on a started match sets the flag of every
  player entry with the sender's id that holds exactly two cards, changes nothing else,
  and changes nothing at all when there is no such entry; the \<open>game_update\<close>
  broadcast is sent in every case.
\<close>

theorem call_uno_sets_flag:
  assumes "games code = Some game" and "gameState game = Some state"
  shows "\<exists>game'.
     handle_call_uno games code pid = (Broadcast game_update, games(code \<mapsto> game')) \<and>
     gameState game' = gameState game \<and> started game' = started game \<and>
     length (players game') = length (players game) \<and>
     (\<forall>k < length (players game).
        players game' ! k =
          (if player_id (players game ! k) = pid \<and> length (hand (players game ! k)) = 2
           then (players game ! k)\<lparr>calledUno := True\<rparr> else players game ! k)) \<and>
     ((\<forall>p \<in> set (players game). player_id p = pid \<longrightarrow> length (hand p) \<noteq> 2) \<longrightarrow>
        game' = game)"
proof -
  define f :: "player \<Rightarrow> player" where "f = (\<lambda>p. if player_id p = pid \<and> length (hand p) = 2
                                       then p\<lparr>calledUno := True\<rparr> else p)"
  have res: "handle_call_uno games code pid =
      (Broadcast game_update, games(code \<mapsto> game\<lparr>players := map f (players game)\<rparr>))"
    using assms by (simp add: handle_call_uno_def f_def)
  have same: "map f (players game) = players game"
    if "\<forall>p \<in> set (players game). player_id p = pid \<longrightarrow> length (hand p) \<noteq> 2"
    using that by (intro map_idI) (auto simp: f_def)
  show ?thesis
    unfolding res
    by (intro exI [of _ "game\<lparr>players := map f (players game)\<rparr>"])
       (auto simp: f_def [symmetric] same, simp_all add: f_def)
qed

theorem call_uno_sets_flag_witness:
  "ex_table 0 ex_deck ''ABCD'' = Some (ex_game 0 ex_deck) \<and>
   \<not> calledUno (ex_players ! 1) \<and> length (hand (ex_players ! 1)) = 2 \<and>
   (\<exists>game'.
     handle_call_uno (ex_table 0 ex_deck) ''ABCD'' ''p2'' =
       (Broadcast game_update, (ex_table 0 ex_deck)(''ABCD'' \<mapsto> game')) \<and>
     gameState game' = Some (ex_state 0 ex_deck) \<and>
     players game' ! 0 = ex_players ! 0 \<and>
     players game' ! 1 = (ex_players ! 1)\<lparr>calledUno := True\<rparr>)"
proof -
  from call_uno_sets_flag [where games = "ex_table 0 ex_deck" and code = "''ABCD''"
      and pid = "''p2''", OF ex_table_facts(1) ex_table_facts(2)]
  obtain game' where
    res: "handle_call_uno (ex_table 0 ex_deck) ''ABCD'' ''p2'' =
       (Broadcast game_update, (ex_table 0 ex_deck)(''ABCD'' \<mapsto> game'))"
    and st: "gameState game' = gameState (ex_game 0 ex_deck)"
    and all: "\<forall>k < length (players (ex_game 0 ex_deck)).
        players game' ! k =
          (if player_id (players (ex_game 0 ex_deck) ! k) = ''p2'' \<and>
              length (hand (players (ex_game 0 ex_deck) ! k)) = 2
           then (players (ex_game 0 ex_deck) ! k)\<lparr>calledUno := True\<rparr>
           else players (ex_game 0 ex_deck) ! k)"
    by blast
  have k0: "(0::nat) < length (players (ex_game 0 ex_deck))"
    and k1: "(1::nat) < length (players (ex_game 0 ex_deck))"
    by (simp_all add: ex_table_facts ex_players_def)
  from all k0 have p0: "players game' ! 0 =
          (if player_id (players (ex_game 0 ex_deck) ! 0) = ''p2'' \<and>
              length (hand (players (ex_game 0 ex_deck) ! 0)) = 2
           then (players (ex_game 0 ex_deck) ! 0)\<lparr>calledUno := True\<rparr>
           else players (ex_game 0 ex_deck) ! 0)" by blast
  from all k1 have p1: "players game' ! 1 =
          (if player_id (players (ex_game 0 ex_deck) ! 1) = ''p2'' \<and>
              length (hand (players (ex_game 0 ex_deck) ! 1)) = 2
           then (players (ex_game 0 ex_deck) ! 1)\<lparr>calledUno := True\<rparr>
           else players (ex_game 0 ex_deck) ! 1)" by blast
  have e0: "player_id (ex_players ! 0) \<noteq> ''p2''"
    and e1: "player_id (ex_players ! 1) = ''p2''" "length (hand (ex_players ! 1)) = 2"
      "\<not> calledUno (ex_players ! 1)"
    by (simp_all add: ex_players_def)
  from p0 e0 have p0': "players game' ! 0 = ex_players ! 0" by (simp only: ex_table_facts if_False simp_thms)
  from p1 e1 have p1': "players game' ! 1 = (ex_players ! 1)\<lparr>calledUno := True\<rparr>"
    by (simp only: ex_table_facts if_True simp_thms)
  from st have st': "gameState game' = Some (ex_state 0 ex_deck)" by (simp add: ex_table_facts)
  from ex_table_facts(1) [of 0 ex_deck] e1 res st' p0' p1' show ?thesis by blast
qed

text \<open>
  Ann holds three cards and declares: nothing changes, and the update is broadcast.
\<close>

theorem call_uno_broadcast_counterexample:
  "length (hand (ex_players ! 0)) = 3 \<and> player_id (ex_players ! 0) = ''p1'' \<and>
   fst (handle_call_uno (ex_table 0 ex_deck) ''ABCD'' ''p1'') = Broadcast game_update \<and>
   fst (handle_call_uno (ex_table 0 ex_deck) ''ABCD'' ''p1'') \<noteq> Returned \<and>
   snd (handle_call_uno (ex_table 0 ex_deck) ''ABCD'' ''p1'') ''ABCD'' =
     ex_table 0 ex_deck ''ABCD''"
  by (simp add: ex_defs handle_call_uno_def)

text \<open>
  C9 fails on the code. After any start that reaches its broadcast, the first player can
  draw the whole draw pile, one card a message; the next draw finds the draw pile empty
  and one card on the discard pile, recycles nothing, and the pop raises IndexError.
\<close>

theorem draw_pile_runs_dry:
  assumes "is_shuffle shuffle" and "is_shuffle shuffle'"
    and "games code = Some game0"
    and "players game0 = p0 # others"
    and "handle_start_game shuffle games code pid = Some (Broadcast game_started, games1)"
  shows "7 * length (players game0) + 1 \<le> 108 \<and>
     fst (handle_draw shuffle'
           (run games1 (replicate (108 - (7 * length (players game0) + 1))
                          (shuffle', draw_card code (player_id p0))))
           code (player_id p0)) = Raised IndexError"
proof -
  from start_game_sizes [OF assms(1,3,5)] obtain game state seed where
    g: "games1 code = Some game" and s: "gameState game = Some state"
    and n: "length (players game) = length (players game0)"
    and dp: "discardPile state = [seed]"
    and len: "length (deck state) + 7 * length (players game0) + 1 = 108"
    and cp: "currentPlayerIndex state = 0" by blast
  from start_game_result [OF assms(1,3,5)] g
  have "map player_id (players game) = map player_id (players game0)" by auto
  with assms(4) have p0: "player_id (players game ! 0) = player_id p0"
    by (cases "players game") auto
  from n assms(4) have "py_index (players game) 0 = Some 0" by (simp add: py_index_def)
  with g s dp cp p0 have "can_draw games1 code (player_id p0) (length (deck state))"
    by (simp add: can_draw_def)
  moreover from len have "length (deck state) = 108 - (7 * length (players game0) + 1)"
    and le: "7 * length (players game0) + 1 \<le> 108" by simp_all
  ultimately have "can_draw games1 code (player_id p0) (108 - (7 * length (players game0) + 1))"
    by simp
  from can_draw_run [OF this, of shuffle']
  have "can_draw (run games1 (replicate (108 - (7 * length (players game0) + 1))
                          (shuffle', draw_card code (player_id p0)))) code (player_id p0) 0" .
  from can_draw_empty [where shuffle = shuffle', OF this shuffle_Nil [OF assms(2)]] le
  show ?thesis by simp
qed

theorem draw_pile_runs_dry_witness:
  "handle_start_game id ex_lobby ''ABCD'' ''p1'' = Some (Broadcast game_started, ex_started) \<and>
   fst (handle_draw id
         (run ex_started (replicate 100 (id, draw_card ''ABCD'' ''p1''))) ''ABCD'' ''p1'') =
     Raised IndexError"
proof -
  have g0: "ex_lobby ''ABCD'' = Some \<lparr>players = [ex_host], started = False, gameState = None\<rparr>"
    by (simp add: ex_lobby_def)
  have pl: "players \<lparr>players = [ex_host], started = False, gameState = None\<rparr> = ex_host # []"
    by simp
  from ex_start_ok obtain games1 where
    ok: "handle_start_game id ex_lobby ''ABCD'' ''p1'' = Some (Broadcast game_started, games1)"
    by (auto split: option.splits)
  then have es: "ex_started = games1" by (simp add: ex_started_def)
  from draw_pile_runs_dry [where games = ex_lobby and code = "''ABCD''" and shuffle = id
      and shuffle' = id, OF is_shuffle_id is_shuffle_id g0 pl ok]
  have "fst (handle_draw id
         (run games1 (replicate 100 (id, draw_card ''ABCD'' ''p1''))) ''ABCD'' ''p1'') =
     Raised IndexError"
    by (simp add: ex_host_def)
  with ok es show ?thesis by simp
qed

text \<open>
  C10. After a play that is served and does not empty the hand, the flag
  \<open>calledUno\<close> of the player who played and the flag \<open>hasDrawn\<close> of the match
  are false, with or without the penalty.
\<close>

theorem play_clears_flags:
  assumes "games code = Some game" and "gameState game = Some state"
    and "py_index (players game) (currentPlayerIndex state) = Some i"
    and "player_id (players game ! i) = pid"
    and "find (\<lambda>c. card_id c = cid) (hand (players game ! i)) = Some c"
    and "remove1 c (hand (players game ! i)) \<noteq> []"
  shows "\<exists>game' state'.
     handle_play_card games code pid cid chosen =
       (Broadcast game_update, games(code \<mapsto> game')) \<and>
     gameState game' = Some state' \<and> length (players game') = length (players game) \<and>
     player_id (players game' ! i) = pid \<and>
     \<not> calledUno (players game' ! i) \<and> \<not> hasDrawn state'"
proof -
  from assms(3) have i: "i < length (players game)" by (rule py_index_Some)
  define ps1 where "ps1 = (players game)[i := (players game ! i)\<lparr>hand := remove1 c (hand (players game ! i))\<rparr>]"
  define state1 where "state1 = state\<lparr>discardPile := discardPile state @ [c],
                           currentColor := (if color c = ''wild'' then chosen else Some (color c)),
                           currentValue := card_value c\<rparr>"
  obtain ps2 state2 where pen: "penalty i (ps1, state1) = (ps2, state2)"
    by (cases "penalty i (ps1, state1)")
  obtain ps3 state3 where eff: "card_effect c (ps2, state2) = (ps3, state3)"
    by (cases "card_effect c (ps2, state2)")
  obtain ps4 state4 where adv: "advance_turn (ps3, state3) = (ps4, state4)"
    by (cases "advance_turn (ps3, state3)")
  have l1: "length ps1 = length (players game)" by (simp add: ps1_def)
  have l2: "length ps2 = length ps1" using length_penalty [of i "(ps1, state1)"] pen by simp
  from pen i l1 have c2: "\<not> calledUno (ps2 ! i)" and p2: "player_id (ps2 ! i) = pid"
    using assms(4) by (auto simp: penalty_def Let_def ps1_def)
  from l1 l2 i have ne2: "ps2 \<noteq> []" by auto
  from map_calledUno_card_effect [OF ne2, of c state2] eff
  have m3: "map calledUno ps3 = map calledUno ps2" "map player_id ps3 = map player_id ps2" by simp_all
  then have l3: "length ps3 = length ps2" by (metis length_map)
  from m3 l3 l2 l1 i have "calledUno (ps3 ! i) = calledUno (ps2 ! i)" "player_id (ps3 ! i) = player_id (ps2 ! i)"
    by (metis nth_map)+
  with c2 p2 have c3: "\<not> calledUno (ps3 ! i)" "player_id (ps3 ! i) = pid" by simp_all
  from adv have ps4: "ps4 = ps3" using fst_advance_turn [of "(ps3, state3)"] by simp
  from adv have h4: "\<not> hasDrawn state4" using hasDrawn_advance_turn [of "(ps3, state3)"] by simp
  have "resolve_play i c chosen (players game, state) = (Broadcast game_update, ps4, state4)"
    using assms(6) i pen eff adv
    by (simp add: resolve_play_def Let_def ps1_def [symmetric] state1_def [symmetric])
       (simp add: ps1_def)
  then have "handle_play_card games code pid cid chosen =
       (Broadcast game_update, games(code \<mapsto> game\<lparr>players := ps4, gameState := Some state4\<rparr>))"
    unfolding play_card_accepted [where games = games and code = code, OF assms(1-5)] by simp
  with c3 h4 ps4 l3 l2 l1 show ?thesis by auto
qed

theorem play_clears_flags_witness:
  "calledUno (players (ex_game 3 ex_deck) ! 3) \<and> hasDrawn (ex_state 3 ex_deck) \<and>
   find (\<lambda>c. card_id c = ''blue-7-1'') (hand (players (ex_game 3 ex_deck) ! 3)) =
     Some (ex_card ''blue'' ''7'') \<and>
   (\<exists>game' state'.
     handle_play_card (ex_table 3 ex_deck) ''ABCD'' ''p4'' ''blue-7-1'' None =
       (Broadcast game_update, (ex_table 3 ex_deck)(''ABCD'' \<mapsto> game')) \<and>
     gameState game' = Some state' \<and> player_id (players game' ! 3) = ''p4'' \<and>
     \<not> calledUno (players game' ! 3) \<and> \<not> hasDrawn state')"
proof -
  have ix: "py_index (players (ex_game 3 ex_deck)) (currentPlayerIndex (ex_state 3 ex_deck)) = Some 3"
    by (simp add: ex_table_facts ex_players_def py_index_def)
  have p: "player_id (players (ex_game 3 ex_deck) ! 3) = ''p4''"
    by (simp add: ex_table_facts ex_players_def py_index_def)
  have f: "find (\<lambda>c. card_id c = ''blue-7-1'') (hand (players (ex_game 3 ex_deck) ! 3)) =
     Some (ex_card ''blue'' ''7'')"
    by (simp add: ex_table_facts ex_players_def ex_card_def)
  have r: "remove1 (ex_card ''blue'' ''7'') (hand (players (ex_game 3 ex_deck) ! 3)) \<noteq> []"
    by (simp add: ex_table_facts ex_players_def ex_card_def)
  have b: "calledUno (players (ex_game 3 ex_deck) ! 3)" "hasDrawn (ex_state 3 ex_deck)"
    by (simp_all add: ex_table_facts ex_players_def ex_state_def)
  from play_clears_flags [where games = "ex_table 3 ex_deck" and code = "''ABCD''"
      and chosen = None, OF ex_table_facts(1) ex_table_facts(2) ix p f r] f b
  show ?thesis by auto
qed

end
